theory Spec2Isabelle
  imports Main
begin

section \<open>Data model\<close>

text \<open>
  Instants (Go's \<^verbatim>\<open>time.Time\<close>, PostgreSQL's \<^verbatim>\<open>TIMESTAMPTZ\<close>) are integers counting
  from Go's zero time, January 1 of year 1, 00:00:00 UTC, so \<^verbatim>\<open>IsZero\<close> is equality
  with 0 and \<^verbatim>\<open>Before\<close> is \<open><\<close>. Durations (\<^verbatim>\<open>time.Duration\<close>) are signed 64-bit
  counts of nanoseconds; Go's \<^verbatim>\<open>int\<close> is taken as 64 bits wide (the build targets
  64-bit Linux). Arithmetic that can leave the 64-bit range is wrapped by \<open>wrap64\<close>.
\<close>

type_synonym Time = int
type_synonym Duration = int

definition IsZero :: "Time \<Rightarrow> bool" where
  "IsZero t = (t = 0)"

definition Before :: "Time \<Rightarrow> Time \<Rightarrow> bool" where
  "Before t u = (t < u)"

definition wrap64 :: "int \<Rightarrow> int" where
  "wrap64 x = (x + 2 ^ 63) mod 2 ^ 64 - 2 ^ 63"

definition Second :: Duration where
  "Second = 1000000000"

definition Minute :: Duration where
  "Minute = 60 * Second"

text \<open>\<^verbatim>\<open>tzkt.Delegation\<close>: an event as decoded from the upstream API.\<close>

record tzkt_Delegation =
  ID :: int
  tzkt_Level :: int
  tzkt_Timestamp :: Time
  tzkt_Amount :: int
  Sender_Address :: string

text \<open>\<^verbatim>\<open>store.InsertDelegation\<close>: a row handed to \<^verbatim>\<open>BulkInsert\<close>.\<close>

record InsertDelegation =
  TzktID :: int
  ins_Timestamp :: Time
  ins_Amount :: int
  ins_Delegator :: string
  ins_Level :: int

text \<open>\<^verbatim>\<open>store.Delegation\<close>: a row as returned by \<^verbatim>\<open>GetPage\<close>.\<close>

record Delegation =
  Timestamp :: Time
  Amount :: int
  Delegator :: string
  Level :: int

text \<open>A row of the table \<^verbatim>\<open>delegations\<close> of the migration.\<close>

record row =
  row_id :: int
  row_tzkt_id :: int
  row_timestamp :: Time
  row_amount :: int
  row_delegator :: string
  row_level :: int
  row_year :: int

text \<open>
  The durable state: the table in insertion order, the last value drawn from the
  \<^verbatim>\<open>BIGSERIAL\<close> sequence behind \<^verbatim>\<open>id\<close>, and the number of transactions opened so far
  (kept only to observe whether a call opened one). A sequence value is drawn by every
  executed \<^verbatim>\<open>INSERT\<close>, also one that ends in the conflict no-op, and is not given
  back by a rollback.
\<close>

record database =
  delegations :: "row list"
  id_seq :: int
  transactions :: nat

definition empty_db :: database where
  "empty_db = \<lparr>delegations = [], id_seq = 0, transactions = 0\<rparr>"

text \<open>
  What the database session does that the program text does not fix: the function
  behind \<^verbatim>\<open>EXTRACT(YEAR FROM ...)\<close>, and which calls fail. \<open>exec_fails k r\<close> says that
  the \<open>k\<close>-th \<^verbatim>\<open>ExecContext\<close> of a batch, on row \<open>r\<close>, returns an error.
\<close>

record session =
  extract_year :: "Time \<Rightarrow> int"
  begin_fails :: bool
  prepare_fails :: bool
  exec_fails :: "nat \<Rightarrow> InsertDelegation \<Rightarrow> bool"
  commit_fails :: bool
  query_fails :: bool

datatype error =
    ErrBeginTx
  | ErrPrepare
  | ErrInsert int
  | ErrCommit
  | ErrQuery
  | ErrQueryLastSeen
  | ErrRateLimiter
  | ErrParseURL
  | ErrCreateRequest
  | ErrContext
  | ErrBodyClose
  | ErrNetwork
  | ErrHTTPFailed nat error
  | ErrStatus int
  | ErrDecode
  | ErrGetLastSeen error
  | ErrFetch Time error
  | ErrBulkInsert nat error

section \<open>Persistence gateway\<close>

text \<open>
  One execution of the prepared statement
  \<^verbatim>\<open>INSERT ... VALUES ($1, $2, $3, $4, $5, EXTRACT(YEAR FROM $2)) ON CONFLICT (tzkt_id) DO NOTHING\<close>.
\<close>

definition insert_row :: "session \<Rightarrow> database \<Rightarrow> InsertDelegation \<Rightarrow> database" where
  "insert_row pg db r =
     (let i = id_seq db + 1 in
      if TzktID r \<in> set (map row_tzkt_id (delegations db))
      then db\<lparr>id_seq := i\<rparr>
      else db\<lparr>id_seq := i,
              delegations := delegations db @
                [\<lparr>row_id = i, row_tzkt_id = TzktID r, row_timestamp = ins_Timestamp r,
                  row_amount = ins_Amount r, row_delegator = ins_Delegator r,
                  row_level = ins_Level r, row_year = extract_year pg (ins_Timestamp r)\<rparr>]\<rparr>)"

text \<open>The loop \<^verbatim>\<open>for _, r := range rows\<close> of \<^verbatim>\<open>BulkInsert\<close>, inside the transaction.\<close>

fun exec_rows :: "session \<Rightarrow> nat \<Rightarrow> database \<Rightarrow> InsertDelegation list \<Rightarrow> error option \<times> database" where
  "exec_rows pg k db [] = (None, db)"
| "exec_rows pg k db (r # rs) =
     (if exec_fails pg k r then (Some (ErrInsert (TzktID r)), db)
      else exec_rows pg (Suc k) (insert_row pg db r) rs)"

text \<open>The deferred \<^verbatim>\<open>tx.Rollback()\<close>: the table is as it was when the transaction began.\<close>

definition rollback :: "database \<Rightarrow> database \<Rightarrow> database" where
  "rollback db0 db = db\<lparr>delegations := delegations db0\<rparr>"

definition BulkInsert :: "session \<Rightarrow> InsertDelegation list \<Rightarrow> database \<Rightarrow> error option \<times> database" where
  "BulkInsert pg rows db =
     (if length rows = 0 then (None, db)
      else if begin_fails pg then (Some ErrBeginTx, db)
      else
        let db0 = db\<lparr>transactions := transactions db + 1\<rparr> in
        if prepare_fails pg then (Some ErrPrepare, db0)
        else
          (case exec_rows pg 0 db0 rows of
             (Some e, db1) \<Rightarrow> (Some e, rollback db0 db1)
           | (None, db1) \<Rightarrow>
               if commit_fails pg then (Some ErrCommit, rollback db0 db1)
               else (None, db1)))"

text \<open>
  \<^verbatim>\<open>ORDER BY timestamp DESC, id DESC\<close>: \<open>newer_eq a b\<close> says that \<open>a\<close> may stand before
  \<open>b\<close>; the sort is an insertion sort on that relation.
\<close>

definition newer_eq :: "row \<Rightarrow> row \<Rightarrow> bool" where
  "newer_eq a b =
     (row_timestamp b < row_timestamp a \<or>
      (row_timestamp a = row_timestamp b \<and> row_id b \<le> row_id a))"

fun insert_desc :: "row \<Rightarrow> row list \<Rightarrow> row list" where
  "insert_desc x [] = [x]"
| "insert_desc x (y # ys) = (if newer_eq x y then x # y # ys else y # insert_desc x ys)"

fun order_by_desc :: "row list \<Rightarrow> row list" where
  "order_by_desc [] = []"
| "order_by_desc (x # xs) = insert_desc x (order_by_desc xs)"

definition where_year :: "int option \<Rightarrow> row \<Rightarrow> bool" where
  "where_year year r = (case year of None \<Rightarrow> True | Some y \<Rightarrow> row_year r = y)"

text \<open>The rows the \<^verbatim>\<open>SELECT\<close> of \<^verbatim>\<open>GetPage\<close> yields, before the projection.\<close>

definition select_page :: "database \<Rightarrow> int option \<Rightarrow> int \<Rightarrow> int \<Rightarrow> row list" where
  "select_page db year limit offset =
     take (nat limit) (drop (nat offset) (order_by_desc (filter (where_year year) (delegations db))))"

definition scan :: "row \<Rightarrow> Delegation" where
  "scan r = \<lparr>Timestamp = row_timestamp r, Amount = row_amount r,
             Delegator = row_delegator r, Level = row_level r\<rparr>"

text \<open>
  \<^verbatim>\<open>GetPage\<close>. PostgreSQL rejects a negative \<^verbatim>\<open>LIMIT\<close> or \<^verbatim>\<open>OFFSET\<close>; any other
  failure of the query, of \<^verbatim>\<open>Scan\<close> or of the iteration is \<open>query_fails\<close>.
\<close>

definition GetPage :: "session \<Rightarrow> database \<Rightarrow> int option \<Rightarrow> int \<Rightarrow> int \<Rightarrow> error + Delegation list" where
  "GetPage pg db year limit offset =
     (if query_fails pg \<or> limit < 0 \<or> offset < 0 then Inl ErrQuery
      else Inr (map scan (select_page db year limit offset)))"

text \<open>
  \<^verbatim>\<open>GetLastSeen\<close>: \<^verbatim>\<open>COALESCE(MAX(timestamp), '0001-01-01')\<close> and
  \<^verbatim>\<open>COALESCE(MAX(level), 0)\<close>; the literal is the zero instant (session time zone UTC).
\<close>

fun max_of :: "int list \<Rightarrow> int option" where
  "max_of [] = None"
| "max_of (x # xs) = (case max_of xs of None \<Rightarrow> Some x | Some m \<Rightarrow> Some (max x m))"

definition coalesce :: "int option \<Rightarrow> int \<Rightarrow> int" where
  "coalesce v d = (case v of None \<Rightarrow> d | Some x \<Rightarrow> x)"

definition GetLastSeen :: "session \<Rightarrow> database \<Rightarrow> error + (Time \<times> int)" where
  "GetLastSeen pg db =
     (if query_fails pg then Inl ErrQueryLastSeen
      else Inr (coalesce (max_of (map row_timestamp (delegations db))) 0,
                coalesce (max_of (map row_level (delegations db))) 0))"

section \<open>Sync engine\<close>

text \<open>
  \<^verbatim>\<open>poller.Config\<close> without its wiring: the store is the database above, the upstream
  client is the answer \<open>upstream\<close> of the iteration, the logger is left out.
\<close>

record Config =
  BatchSize :: int
  PollInterval :: Duration
  GenesisStart :: Time
  MaxBackoff :: Duration

definition NewPoller :: "Config \<Rightarrow> Config" where
  "NewPoller cfg =
     (let cfg1 = (if BatchSize cfg \<le> 0 then cfg\<lparr>BatchSize := 10000\<rparr> else cfg);
          cfg2 = (if PollInterval cfg1 \<le> 0 then cfg1\<lparr>PollInterval := 15 * Second\<rparr> else cfg1);
          cfg3 = (if MaxBackoff cfg2 \<le> 0 then cfg2\<lparr>MaxBackoff := 2 * Minute\<rparr> else cfg2)
      in cfg3)"

text \<open>
  What one pass of the loop of \<^verbatim>\<open>Run\<close> meets: the database session, the answer of
  \<^verbatim>\<open>Client.FetchDelegations\<close> to a call with the given \<^verbatim>\<open>since\<close> and \<^verbatim>\<open>limit\<close>,
  whether the context is done at the head of the loop, and whether it is done before
  the timer of the sleep fires.
\<close>

record iteration =
  db_session :: session
  upstream :: "Time \<Rightarrow> int \<Rightarrow> error + tzkt_Delegation list"
  done_at_head :: bool
  done_in_sleep :: bool

text \<open>The loop \<^verbatim>\<open>for _, d := range delegations\<close> of \<^verbatim>\<open>syncOnce\<close>.\<close>

definition to_insert :: "tzkt_Delegation \<Rightarrow> InsertDelegation" where
  "to_insert d = \<lparr>TzktID = ID d, ins_Timestamp = tzkt_Timestamp d, ins_Amount = tzkt_Amount d,
                  ins_Delegator = Sender_Address d, ins_Level = tzkt_Level d\<rparr>"

fun build_batch :: "tzkt_Delegation list \<Rightarrow> InsertDelegation list \<Rightarrow> InsertDelegation list" where
  "build_batch [] batch = batch"
| "build_batch (d # ds) batch =
     (if Sender_Address d = [] then build_batch ds batch
      else build_batch ds (batch @ [to_insert d]))"

text \<open>The clamp of the watermark at the head of \<^verbatim>\<open>syncOnce\<close>.\<close>

definition fetch_since :: "Config \<Rightarrow> Time \<Rightarrow> Time" where
  "fetch_since cfg lastTs =
     (if IsZero lastTs \<or> (\<not> IsZero (GenesisStart cfg) \<and> Before lastTs (GenesisStart cfg))
      then GenesisStart cfg else lastTs)"

text \<open>
  \<^verbatim>\<open>syncOnce\<close> returns its result, the database after it, and the calls it made to the
  upstream client as pairs of \<^verbatim>\<open>since\<close> and \<^verbatim>\<open>limit\<close>.
\<close>

record sync_result =
  outcome :: "error + int"
  store_after :: database
  fetch_calls :: "(Time \<times> int) list"

definition syncOnce :: "Config \<Rightarrow> iteration \<Rightarrow> database \<Rightarrow> sync_result" where
  "syncOnce cfg it db =
     (case GetLastSeen (db_session it) db of
        Inl e \<Rightarrow> \<lparr>outcome = Inl (ErrGetLastSeen e), store_after = db, fetch_calls = []\<rparr>
      | Inr (ts, lvl) \<Rightarrow>
          let lastTs = fetch_since cfg ts;
              calls = [(lastTs, BatchSize cfg)] in
          (case upstream it lastTs (BatchSize cfg) of
             Inl e \<Rightarrow> \<lparr>outcome = Inl (ErrFetch lastTs e), store_after = db, fetch_calls = calls\<rparr>
           | Inr ds \<Rightarrow>
               if length ds = 0
               then \<lparr>outcome = Inr 0, store_after = db, fetch_calls = calls\<rparr>
               else
                 let batch = build_batch ds [] in
                 (case BulkInsert (db_session it) batch db of
                    (Some e, db1) \<Rightarrow>
                      \<lparr>outcome = Inl (ErrBulkInsert (length batch) e), store_after = db1,
                        fetch_calls = calls\<rparr>
                  | (None, db1) \<Rightarrow>
                      \<lparr>outcome = Inr (int (length batch)), store_after = db1,
                        fetch_calls = calls\<rparr>)))"

text \<open>The update of \<^verbatim>\<open>backoff\<close> after a failed pass; the doubling is 64-bit.\<close>

definition next_backoff :: "Config \<Rightarrow> Duration \<Rightarrow> Duration" where
  "next_backoff cfg backoff =
     (if backoff < MaxBackoff cfg
      then (let b = wrap64 (backoff * 2) in if b > MaxBackoff cfg then MaxBackoff cfg else b)
      else backoff)"

text \<open>
  What the loop of \<^verbatim>\<open>Run\<close> does, in order: a pass of \<^verbatim>\<open>syncOnce\<close> with its result,
  and the sleeps it starts.
\<close>

datatype event =
    Synced "error + int"
  | SleepBackoff Duration
  | SleepInterval Duration

text \<open>
  One pass of the loop body: the events, the database after it, and either the value of
  \<^verbatim>\<open>backoff\<close> for the next pass or \<open>None\<close> when \<^verbatim>\<open>Run\<close> returns.
\<close>

definition pass :: "Config \<Rightarrow> iteration \<Rightarrow> Duration \<Rightarrow> database \<Rightarrow> event list \<times> database \<times> Duration option" where
  "pass cfg it backoff db =
     (if done_at_head it then ([], db, None)
      else
        let r = syncOnce cfg it db in
        (case outcome r of
           Inl e \<Rightarrow>
             if done_in_sleep it
             then ([Synced (Inl e), SleepBackoff backoff], store_after r, None)
             else ([Synced (Inl e), SleepBackoff backoff], store_after r,
                   Some (next_backoff cfg backoff))
         | Inr n \<Rightarrow>
             if n = BatchSize cfg
             then ([Synced (Inr n)], store_after r, Some (PollInterval cfg))
             else if done_in_sleep it
             then ([Synced (Inr n), SleepInterval (PollInterval cfg)], store_after r, None)
             else ([Synced (Inr n), SleepInterval (PollInterval cfg)], store_after r,
                   Some (PollInterval cfg))))"

text \<open>
  The loop of \<^verbatim>\<open>Run\<close> never ends by itself, so it is run against a finite list of
  passes: \<open>Returned\<close> when \<^verbatim>\<open>Run\<close> returned \<^verbatim>\<open>nil\<close> within them, \<open>Looping\<close> with the
  current \<^verbatim>\<open>backoff\<close> when it is at the head of the loop after the last of them.
\<close>

datatype run_status = Returned | Looping Duration

record run_result =
  status :: run_status
  events :: "event list"
  final_store :: database

fun Run_loop :: "Config \<Rightarrow> iteration list \<Rightarrow> Duration \<Rightarrow> database \<Rightarrow> run_result" where
  "Run_loop cfg [] backoff db = \<lparr>status = Looping backoff, events = [], final_store = db\<rparr>"
| "Run_loop cfg (it # its) backoff db =
     (case pass cfg it backoff db of
        (evs, db1, None) \<Rightarrow> \<lparr>status = Returned, events = evs, final_store = db1\<rparr>
      | (evs, db1, Some b) \<Rightarrow>
          (let r = Run_loop cfg its b db1 in r\<lparr>events := evs @ events r\<rparr>))"

definition Run :: "Config \<Rightarrow> iteration list \<Rightarrow> database \<Rightarrow> run_result" where
  "Run cfg its db = Run_loop cfg its (PollInterval cfg) db"

text \<open>Read off a list of events: the backoff sleeps in order, and the number of passes of
  \<^verbatim>\<open>syncOnce\<close>.\<close>

fun backoff_sleeps :: "event list \<Rightarrow> Duration list" where
  "backoff_sleeps [] = []"
| "backoff_sleeps (SleepBackoff d # evs) = d # backoff_sleeps evs"
| "backoff_sleeps (e # evs) = backoff_sleeps evs"

fun passes_done :: "event list \<Rightarrow> nat" where
  "passes_done [] = 0"
| "passes_done (Synced r # evs) = Suc (passes_done evs)"
| "passes_done (e # evs) = passes_done evs"

section \<open>Upstream client\<close>

text \<open>
  What \<^verbatim>\<open>c.http.Do\<close> gives back: a network-level error, or a response with its status
  code, whether closing its body fails, and what the JSON decoder makes of the body
  (\<open>None\<close> for a malformed payload).
\<close>

record http_response =
  StatusCode :: int
  close_fails :: bool
  payload :: "tzkt_Delegation list option"

datatype http_outcome = NetworkError | Response http_response

text \<open>
  The world of one call of \<^verbatim>\<open>FetchDelegations\<close>: whether the rate limiter, the URL
  parser or the request constructor fail, what the \<open>k\<close>-th call of \<^verbatim>\<open>Do\<close> returns for
  the request with the given \<^verbatim>\<open>since\<close> and \<^verbatim>\<open>limit\<close>, and whether the context is done
  before the backoff timer ahead of attempt \<open>k\<close> fires.
\<close>

record transport =
  limiter_fails :: bool
  url_invalid :: bool
  request_invalid :: bool
  Do :: "Time \<times> int \<Rightarrow> nat \<Rightarrow> http_outcome"
  done_in_backoff :: "nat \<Rightarrow> bool"

datatype client_event = Waited Duration | Attempt nat

definition maxRetries :: nat where
  "maxRetries = 3"

text \<open>
  The retry loop \<^verbatim>\<open>for attempt := 0; attempt < maxRetries; attempt++\<close>. It gives the
  events in order and either the error of an early \<^verbatim>\<open>return\<close>, or \<^verbatim>\<open>resp\<close> and
  \<^verbatim>\<open>lastErr\<close> as they are after the loop.
\<close>

function retry_loop ::
  "transport \<Rightarrow> Time \<times> int \<Rightarrow> nat \<Rightarrow> Duration \<Rightarrow> http_response option \<Rightarrow> error option \<Rightarrow>
     client_event list \<times> (error + http_response option \<times> error option)" where
  "retry_loop tr req attempt backoff resp lastErr =
     (if attempt < maxRetries then
        (if 0 < attempt \<and> done_in_backoff tr attempt then ([], Inl ErrContext)
         else
           let waited = (if 0 < attempt then [Waited backoff] else []);
               backoff1 = (if 0 < attempt then wrap64 (backoff * 2) else backoff) in
           (case Do tr req attempt of
              NetworkError \<Rightarrow>
                (case retry_loop tr req (attempt + 1) backoff1 None (Some ErrNetwork) of
                   (evs, res) \<Rightarrow> (waited @ Attempt attempt # evs, res))
            | Response r \<Rightarrow>
                if StatusCode r = 429 then
                  (if close_fails r then (waited @ [Attempt attempt], Inl ErrBodyClose)
                   else
                     (case retry_loop tr req (attempt + 1) backoff1 (Some r) None of
                        (evs, res) \<Rightarrow> (waited @ Attempt attempt # evs, res)))
                else (waited @ [Attempt attempt], Inr (Some r, None))))
      else ([], Inr (resp, lastErr)))"
  by pat_completeness auto
termination
  by (relation "measure (\<lambda>(tr, req, attempt, backoff, resp, lastErr). maxRetries - attempt)") auto

text \<open>
  What \<^verbatim>\<open>FetchDelegations\<close> does after the loop. \<^verbatim>\<open>resp\<close> is dereferenced there; were
  it \<^verbatim>\<open>nil\<close> with \<^verbatim>\<open>lastErr\<close> \<^verbatim>\<open>nil\<close>, Go would panic.
\<close>

datatype fetch_error = Failed error | PanicNilResponse

definition after_loop :: "http_response option \<Rightarrow> error option \<Rightarrow> fetch_error + tzkt_Delegation list" where
  "after_loop resp lastErr =
     (case lastErr of
        Some e \<Rightarrow> Inl (Failed (ErrHTTPFailed maxRetries e))
      | None \<Rightarrow>
          (case resp of
             None \<Rightarrow> Inl PanicNilResponse
           | Some r \<Rightarrow>
               if StatusCode r \<ge> 300 then Inl (Failed (ErrStatus (StatusCode r)))
               else
                 (case payload r of
                    None \<Rightarrow> Inl (Failed ErrDecode)
                  | Some out \<Rightarrow> Inr out)))"

text \<open>\<^verbatim>\<open>FetchDelegations\<close>, with the events of its retry loop.\<close>

definition FetchDelegations ::
  "transport \<Rightarrow> Time \<Rightarrow> int \<Rightarrow> client_event list \<times> (fetch_error + tzkt_Delegation list)" where
  "FetchDelegations tr since limit =
     (if limiter_fails tr then ([], Inl (Failed ErrRateLimiter))
      else if url_invalid tr then ([], Inl (Failed ErrParseURL))
      else if request_invalid tr then ([], Inl (Failed ErrCreateRequest))
      else
        (case retry_loop tr (since, limit) 0 (1 * Second) None None of
           (evs, Inl e) \<Rightarrow> (evs, Inl (Failed e))
         | (evs, Inr (resp, lastErr)) \<Rightarrow> (evs, after_loop resp lastErr)))"

definition attempts :: "client_event list \<Rightarrow> nat list" where
  "attempts evs = concat (map (\<lambda>e. case e of Attempt k \<Rightarrow> [k] | Waited d \<Rightarrow> []) evs)"

definition waits :: "client_event list \<Rightarrow> Duration list" where
  "waits evs = concat (map (\<lambda>e. case e of Attempt k \<Rightarrow> [] | Waited d \<Rightarrow> [d]) evs)"

section \<open>Read endpoint\<close>

text \<open>
  \<^verbatim>\<open>url.Values\<close> and its \<^verbatim>\<open>Get\<close>: the first value of the key, or the empty string when
  there is none.
\<close>

type_synonym Values = "string \<Rightarrow> string list option"

definition Get :: "Values \<Rightarrow> string \<Rightarrow> string" where
  "Get v key = (case v key of None \<Rightarrow> [] | Some [] \<Rightarrow> [] | Some (x # xs) \<Rightarrow> x)"

text \<open>
  \<^verbatim>\<open>strconv.Atoi\<close> of the Go library: an optional sign, then one or more decimal
  digits, and a value in the range of a 64-bit \<^verbatim>\<open>int\<close>; anything else is an error.
\<close>

definition is_digit :: "char \<Rightarrow> bool" where
  "is_digit c = (48 \<le> (of_char c :: nat) \<and> (of_char c :: nat) \<le> 57)"

fun parse_digits :: "string \<Rightarrow> int \<Rightarrow> int option" where
  "parse_digits [] acc = Some acc"
| "parse_digits (c # cs) acc =
     (if is_digit c then parse_digits cs (acc * 10 + (int (of_char c) - 48)) else None)"

definition parse_unsigned :: "bool \<Rightarrow> string \<Rightarrow> int option" where
  "parse_unsigned neg ds =
     (if ds = [] then None
      else
        (case parse_digits ds 0 of
           None \<Rightarrow> None
         | Some n \<Rightarrow>
             let v = (if neg then - n else n) in
             if - (2 ^ 63) \<le> v \<and> v < 2 ^ 63 then Some v else None))"

definition Atoi :: "string \<Rightarrow> int option" where
  "Atoi s =
     (case s of
        [] \<Rightarrow> None
      | c # cs \<Rightarrow>
          if c = CHR ''-'' then parse_unsigned True cs
          else if c = CHR ''+'' then parse_unsigned False cs
          else parse_unsigned False s)"

text \<open>\<^verbatim>\<open>strconv.FormatInt(n, 10)\<close>.\<close>

fun format_nat :: "nat \<Rightarrow> string" where
  "format_nat n =
     (if n < 10 then [''0123456789'' ! n]
      else format_nat (n div 10) @ [''0123456789'' ! (n mod 10)])"

declare format_nat.simps [simp del]

definition FormatInt :: "int \<Rightarrow> string" where
  "FormatInt n = (if n < 0 then CHR ''-'' # format_nat (nat (- n)) else format_nat (nat n))"

record responseDelegation =
  resp_Timestamp :: string
  resp_Amount :: string
  resp_Delegator :: string
  resp_Level :: string

text \<open>
  A Go slice is \<open>None\<close> when it is \<^verbatim>\<open>nil\<close>; \<^verbatim>\<open>encoding/json\<close> writes a \<^verbatim>\<open>nil\<close> slice
  as \<^verbatim>\<open>null\<close> and any other as an array.
\<close>

type_synonym 'a slice = "'a list option"

definition make_slice :: "'a slice" where
  "make_slice = Some []"

definition append_slice :: "'a slice \<Rightarrow> 'a \<Rightarrow> 'a slice" where
  "append_slice s x = (case s of None \<Rightarrow> Some [x] | Some xs \<Rightarrow> Some (xs @ [x]))"

datatype json = JNull | JArray "responseDelegation list"

definition Encode :: "responseDelegation slice \<Rightarrow> json" where
  "Encode s = (case s of None \<Rightarrow> JNull | Some xs \<Rightarrow> JArray xs)"

text \<open>A reply is a status code and either the text of \<^verbatim>\<open>http.Error\<close> or the JSON object
  with its one field \<^verbatim>\<open>data\<close>.\<close>

datatype body = PlainText string | JSON (data: json)

record reply =
  code :: int
  content :: body

definition pageSize :: int where
  "pageSize = 50"

text \<open>The loop \<^verbatim>\<open>for _, d := range rows\<close> of the handler; \<open>fmt\<close> is the formatting of an
  instant with the layout \<^verbatim>\<open>2006-01-02T15:04:05Z\<close>.\<close>

fun render_rows :: "(Time \<Rightarrow> string) \<Rightarrow> Delegation list \<Rightarrow> responseDelegation slice \<Rightarrow> responseDelegation slice" where
  "render_rows fmt [] out = out"
| "render_rows fmt (d # ds) out =
     render_rows fmt ds
       (append_slice out \<lparr>resp_Timestamp = fmt (Timestamp d), resp_Amount = FormatInt (Amount d),
                          resp_Delegator = Delegator d, resp_Level = FormatInt (Level d)\<rparr>)"

text \<open>
  \<^verbatim>\<open>handleDelegations\<close> over a store given by its \<^verbatim>\<open>GetPage\<close> (the handler uses only
  \<^verbatim>\<open>len\<close> and \<^verbatim>\<open>range\<close> of the rows, so a \<^verbatim>\<open>nil\<close> result is the empty list). Beside the
  reply it gives the calls made to the store, as year, limit and offset.
\<close>

definition parse_year :: "string \<Rightarrow> unit + int option" where
  "parse_year yearParam =
     (if yearParam \<noteq> [] then
        (case Atoi yearParam of
           None \<Rightarrow> Inl ()
         | Some y \<Rightarrow> if y < 2018 then Inl () else Inr (Some y))
      else Inr None)"

definition parse_page :: "string \<Rightarrow> unit + int" where
  "parse_page pageParam =
     (if pageParam \<noteq> [] then
        (case Atoi pageParam of
           None \<Rightarrow> Inl ()
         | Some p \<Rightarrow> if p \<le> 0 then Inl () else Inr p)
      else Inr 1)"

definition handleDelegations ::
  "(Time \<Rightarrow> string) \<Rightarrow> (int option \<Rightarrow> int \<Rightarrow> int \<Rightarrow> error + Delegation list) \<Rightarrow> Values \<Rightarrow>
     reply \<times> (int option \<times> int \<times> int) list" where
  "handleDelegations fmt getPage query =
     (case parse_year (Get query ''year'') of
        Inl u \<Rightarrow> (\<lparr>code = 400, content = PlainText ''invalid year''\<rparr>, [])
      | Inr year \<Rightarrow>
          (case parse_page (Get query ''page'') of
             Inl u \<Rightarrow> (\<lparr>code = 400, content = PlainText ''invalid page''\<rparr>, [])
           | Inr page \<Rightarrow>
               let offset = wrap64 ((page - 1) * pageSize) in
               (case getPage year pageSize offset of
                  Inl e \<Rightarrow>
                    (\<lparr>code = 500, content = PlainText ''internal error''\<rparr>,
                     [(year, pageSize, offset)])
                | Inr rows \<Rightarrow>
                    (\<lparr>code = 200, content = JSON (Encode (render_rows fmt rows make_slice))\<rparr>,
                     [(year, pageSize, offset)]))))"

section \<open>Example data\<close>

definition healthy :: session where
  "healthy = \<lparr>extract_year = (\<lambda>t. 1 + t div 31556952), begin_fails = False, prepare_fails = False,
               exec_fails = (\<lambda>k r. False), commit_fails = False, query_fails = False\<rparr>"

definition two_rows :: "InsertDelegation list" where
  "two_rows =
     [\<lparr>TzktID = 1, ins_Timestamp = 63666150660, ins_Amount = 100, ins_Delegator = ''tz1abc'', ins_Level = 10\<rparr>,
      \<lparr>TzktID = 2, ins_Timestamp = 63697707612, ins_Amount = 250, ins_Delegator = ''tz1def'', ins_Level = 11\<rparr>]"

definition two_rows_db :: database where
  "two_rows_db =
     \<lparr>delegations =
        [\<lparr>row_id = 1, row_tzkt_id = 1, row_timestamp = 63666150660, row_amount = 100,
          row_delegator = ''tz1abc'', row_level = 10, row_year = 2018\<rparr>,
         \<lparr>row_id = 2, row_tzkt_id = 2, row_timestamp = 63697707612, row_amount = 250,
          row_delegator = ''tz1def'', row_level = 11, row_year = 2019\<rparr>],
      id_seq = 2, transactions = 1\<rparr>"

definition second_exec_fails :: session where
  "second_exec_fails = healthy\<lparr>exec_fails := (\<lambda>k r. k = 1)\<rparr>"

definition three_rows_db :: database where
  "three_rows_db =
     \<lparr>delegations =
        [\<lparr>row_id = 1, row_tzkt_id = 7, row_timestamp = 100, row_amount = 5,
          row_delegator = ''tz1a'', row_level = 1, row_year = 2019\<rparr>,
         \<lparr>row_id = 2, row_tzkt_id = 8, row_timestamp = 300, row_amount = 6,
          row_delegator = ''tz1b'', row_level = 2, row_year = 2020\<rparr>,
         \<lparr>row_id = 3, row_tzkt_id = 9, row_timestamp = 100, row_amount = 7,
          row_delegator = ''tz1c'', row_level = 1, row_year = 2019\<rparr>],
      id_seq = 3, transactions = 1\<rparr>"

definition cfg2 :: Config where
  "cfg2 = \<lparr>BatchSize = 2, PollInterval = 15 * Second, GenesisStart = 63665913600,
            MaxBackoff = 2 * Minute\<rparr>"

definition with_address :: tzkt_Delegation where
  "with_address = \<lparr>ID = 1, tzkt_Level = 10, tzkt_Timestamp = 63666043200, tzkt_Amount = 1000,
                    Sender_Address = ''tz1abc''\<rparr>"

definition without_address :: tzkt_Delegation where
  "without_address = \<lparr>ID = 2, tzkt_Level = 10, tzkt_Timestamp = 63666043200, tzkt_Amount = 5,
                       Sender_Address = []\<rparr>"

definition mixed_iteration :: iteration where
  "mixed_iteration = \<lparr>db_session = healthy,
                       upstream = (\<lambda>since limit. Inr [with_address, without_address]),
                       done_at_head = False, done_in_sleep = False\<rparr>"

definition one_row_db :: database where
  "one_row_db =
     \<lparr>delegations =
        [\<lparr>row_id = 1, row_tzkt_id = 1, row_timestamp = 63666043200, row_amount = 1000,
          row_delegator = ''tz1abc'', row_level = 10, row_year = 2018\<rparr>],
      id_seq = 1, transactions = 1\<rparr>"

definition second_with_address :: tzkt_Delegation where
  "second_with_address = \<lparr>ID = 3, tzkt_Level = 11, tzkt_Timestamp = 63666043260, tzkt_Amount = 7,
                           Sender_Address = ''tz1def''\<rparr>"

definition full_iteration :: iteration where
  "full_iteration = \<lparr>db_session = healthy,
                      upstream = (\<lambda>since limit. Inr [with_address, second_with_address]),
                      done_at_head = False, done_in_sleep = False\<rparr>"

definition failing_iteration :: iteration where
  "failing_iteration = \<lparr>db_session = healthy,
                         upstream = (\<lambda>since limit. Inl ErrNetwork),
                         done_at_head = False, done_in_sleep = False\<rparr>"

definition cfg_1s_8s :: Config where
  "cfg_1s_8s = \<lparr>BatchSize = 2, PollInterval = 1 * Second, GenesisStart = 63665913600,
                 MaxBackoff = 8 * Second\<rparr>"

definition cfg_10s_8s :: Config where
  "cfg_10s_8s = \<lparr>BatchSize = 2, PollInterval = 10 * Second, GenesisStart = 63665913600,
                  MaxBackoff = 8 * Second\<rparr>"

definition healthy_transport :: transport where
  "healthy_transport = \<lparr>limiter_fails = False, url_invalid = False, request_invalid = False,
                         Do = (\<lambda>req k. NetworkError), done_in_backoff = (\<lambda>k. False)\<rparr>"

definition flaky_transport :: transport where
  "flaky_transport = healthy_transport
     \<lparr>Do := (\<lambda>req k.
               if k = 0 then NetworkError
               else if k = 1 then Response \<lparr>StatusCode = 429, close_fails = False, payload = None\<rparr>
               else Response \<lparr>StatusCode = 200, close_fails = False, payload = Some [with_address]\<rparr>)\<rparr>"

definition server_error_transport :: transport where
  "server_error_transport = healthy_transport
     \<lparr>Do := (\<lambda>req k. Response \<lparr>StatusCode = 500, close_fails = False, payload = None\<rparr>)\<rparr>"

definition epoch_seconds :: "Time \<Rightarrow> string" where
  "epoch_seconds t = FormatInt t"

section \<open>The retry loop unfolded\<close>

text \<open>The third and last attempt of the retry loop, entered with backoff \<open>b\<close>.\<close>

definition third_attempt ::
  "transport \<Rightarrow> Time \<times> int \<Rightarrow> Duration \<Rightarrow> client_event list \<times> (error + http_response option \<times> error option)" where
  "third_attempt tr req b =
     (if done_in_backoff tr 2 then ([], Inl ErrContext)
      else (case Do tr req 2 of
              NetworkError \<Rightarrow> ([Waited b, Attempt 2], Inr (None, Some ErrNetwork))
            | Response r \<Rightarrow>
                if StatusCode r = 429 \<and> close_fails r then ([Waited b, Attempt 2], Inl ErrBodyClose)
                else ([Waited b, Attempt 2], Inr (Some r, None))))"

section \<open>Properties of the persistence gateway\<close>

lemma insert_row_conflict:
  "TzktID r \<in> set (map row_tzkt_id (delegations db)) \<Longrightarrow> delegations (insert_row pg db r) = delegations db"
  by (simp add: insert_row_def Let_def)

lemma insert_row_ids:
  "set (map row_tzkt_id (delegations (insert_row pg db r))) = insert (TzktID r) (set (map row_tzkt_id (delegations db)))"
  by (auto simp: insert_row_def Let_def)

lemma exec_rows_all_conflict:
  "set (map TzktID rows) \<subseteq> set (map row_tzkt_id (delegations db)) \<Longrightarrow>
   delegations (snd (exec_rows pg k db rows)) = delegations db"
proof (induction rows arbitrary: k db)
  case Nil
  then show ?case by simp
next
  case (Cons r rs)
  have mem: "TzktID r \<in> set (map row_tzkt_id (delegations db))"
    using Cons.prems by simp
  have same: "delegations (insert_row pg db r) = delegations db"
    using mem by (rule insert_row_conflict)
  have sub: "set (map TzktID rs) \<subseteq> set (map row_tzkt_id (delegations (insert_row pg db r)))"
    using Cons.prems same by simp
  show ?case
    using Cons.IH [OF sub] same by simp
qed

lemma exec_rows_all_conflict_ok:
  "(\<And>k r. \<not> exec_fails pg k r) \<Longrightarrow> fst (exec_rows pg k db rows) = None"
  by (induction rows arbitrary: k db) simp_all

lemma exec_rows_ids:
  "exec_rows pg k db rows = (None, db1) \<Longrightarrow>
   set (map row_tzkt_id (delegations db1)) = set (map TzktID rows) \<union> set (map row_tzkt_id (delegations db))"
proof (induction rows arbitrary: k db)
  case Nil
  then show ?case by simp
next
  case (Cons r rs)
  from Cons.prems have nf: "\<not> exec_fails pg k r"
    by (auto split: if_splits)
  with Cons.prems have "exec_rows pg (Suc k) (insert_row pg db r) rs = (None, db1)"
    by simp
  from Cons.IH [OF this] show ?case
    by (simp add: insert_row_ids del: set_map)
qed

lemma exec_rows_no_failure:
  "exec_rows pg j db rows = (None, db1) \<Longrightarrow> i < length rows \<Longrightarrow> \<not> exec_fails pg (j + i) (rows ! i)"
proof (induction rows arbitrary: j db i)
  case Nil
  then show ?case by simp
next
  case (Cons r rs)
  from Cons.prems(1) have nf: "\<not> exec_fails pg j r"
    by (auto split: if_splits)
  with Cons.prems(1) have rest: "exec_rows pg (Suc j) (insert_row pg db r) rs = (None, db1)"
    by simp
  show ?case
  proof (cases i)
    case 0
    with nf show ?thesis by simp
  next
    case (Suc i')
    with Cons.prems(2) have "i' < length rs" by simp
    from Cons.IH [OF rest this] Suc show ?thesis by simp
  qed
qed

lemma BulkInsert_error_keeps_rows:
  "BulkInsert pg rows db = (Some e, db1) \<Longrightarrow> delegations db1 = delegations db"
  by (auto simp: BulkInsert_def Let_def rollback_def split: if_splits prod.splits option.splits)

lemma BulkInsert_ok_ids:
  assumes "BulkInsert pg rows db = (None, db1)"
  shows "set (map TzktID rows) \<subseteq> set (map row_tzkt_id (delegations db1))"
proof (cases "rows = []")
  case True
  then show ?thesis by simp
next
  case False
  with assms obtain db0 where "exec_rows pg 0 db0 rows = (None, db1)"
    by (auto simp: BulkInsert_def Let_def split: if_splits prod.splits option.splits)
  from exec_rows_ids [OF this] show ?thesis by blast
qed

lemma BulkInsert_all_conflict:
  assumes "set (map TzktID rows) \<subseteq> set (map row_tzkt_id (delegations db))"
  shows "delegations (snd (BulkInsert pg rows db)) = delegations db"
proof -
  have "delegations (snd (exec_rows pg 0 (db\<lparr>transactions := transactions db + 1\<rparr>) rows)) = delegations db"
    using exec_rows_all_conflict [of rows "db\<lparr>transactions := transactions db + 1\<rparr>" pg 0] assms by simp
  then show ?thesis
    by (auto simp: BulkInsert_def Let_def rollback_def split: prod.splits option.splits)
qed

lemma BulkInsert_healthy:
  assumes "\<not> begin_fails pg" "\<not> prepare_fails pg" "\<And>k r. \<not> exec_fails pg k r" "\<not> commit_fails pg"
  shows "fst (BulkInsert pg rows db) = None"
proof -
  have "fst (exec_rows pg 0 (db\<lparr>transactions := transactions db + 1\<rparr>) rows) = None"
    using assms(3) by (rule exec_rows_all_conflict_ok)
  then show ?thesis using assms(1,2,4)
    by (auto simp: BulkInsert_def Let_def split: prod.splits option.splits)
qed














lemma BulkInsert_two_rows: "BulkInsert healthy two_rows empty_db = (None, two_rows_db)"
  by (simp add: BulkInsert_def healthy_def two_rows_def two_rows_db_def empty_db_def insert_row_def Let_def)

text \<open>
  Claim C1. Writing a batch a second time leaves the table as the first write left it,
  whatever the session of the second write does: every row of the batch meets its own
  upstream identifier in the table and is skipped. The skipping is not an error: the
  second write fails only if the session itself fails. A single insert of a row whose
  upstream identifier is already stored leaves the table unchanged.
\<close>

theorem BulkInsert_idempotent:
  assumes "BulkInsert pg rows db = (None, db1)"
  shows "delegations (snd (BulkInsert pg2 rows db1)) = delegations db1 \<and>
         (\<not> begin_fails pg2 \<and> \<not> prepare_fails pg2 \<and> (\<forall>k r. \<not> exec_fails pg2 k r) \<and> \<not> commit_fails pg2
            \<longrightarrow> fst (BulkInsert pg2 rows db1) = None) \<and>
         (\<forall>r. TzktID r \<in> set (map row_tzkt_id (delegations db)) \<longrightarrow>
              delegations (insert_row pg db r) = delegations db)"
proof -
  have ids: "set (map TzktID rows) \<subseteq> set (map row_tzkt_id (delegations db1))"
    using assms by (rule BulkInsert_ok_ids)
  have a: "delegations (snd (BulkInsert pg2 rows db1)) = delegations db1"
    using ids by (rule BulkInsert_all_conflict)
  have b: "\<not> begin_fails pg2 \<and> \<not> prepare_fails pg2 \<and> (\<forall>k r. \<not> exec_fails pg2 k r) \<and> \<not> commit_fails pg2
            \<longrightarrow> fst (BulkInsert pg2 rows db1) = None"
    using BulkInsert_healthy [of pg2 rows db1] by blast
  have c: "\<forall>r. TzktID r \<in> set (map row_tzkt_id (delegations db)) \<longrightarrow>
              delegations (insert_row pg db r) = delegations db"
    using insert_row_conflict by blast
  from a b c show ?thesis by blast
qed

theorem BulkInsert_idempotent_witness:
  "BulkInsert healthy two_rows empty_db = (None, two_rows_db) \<and>
   BulkInsert healthy two_rows two_rows_db = (None, two_rows_db\<lparr>id_seq := 4, transactions := 2\<rparr>) \<and>
   delegations (snd (BulkInsert healthy two_rows two_rows_db)) = delegations two_rows_db"
proof -
  have w: "BulkInsert healthy two_rows empty_db = (None, two_rows_db)"
    by (rule BulkInsert_two_rows)
  have e: "BulkInsert healthy two_rows two_rows_db = (None, two_rows_db\<lparr>id_seq := 4, transactions := 2\<rparr>)"
    by (simp add: BulkInsert_def healthy_def two_rows_def two_rows_db_def insert_row_def Let_def)
  from BulkInsert_idempotent [OF w, of healthy] w e show ?thesis by blast
qed

text \<open>
  Claim C6. On the empty batch \<^verbatim>\<open>BulkInsert\<close> returns success and leaves the whole
  state as it is, the count of opened transactions included. Whenever it returns an
  error the table is the one before the call; and if the insert of any row of a batch
  fails, the call returns an error, so no row of that batch is stored.
\<close>

theorem BulkInsert_empty_and_rollback:
  "BulkInsert pg [] db = (None, db) \<and>
   (BulkInsert pg rows db = (Some e, db1) \<longrightarrow> delegations db1 = delegations db) \<and>
   (rows \<noteq> [] \<and> (\<exists>k < length rows. exec_fails pg k (rows ! k)) \<longrightarrow>
      fst (BulkInsert pg rows db) \<noteq> None \<and>
      delegations (snd (BulkInsert pg rows db)) = delegations db)"
proof -
  have a: "BulkInsert pg [] db = (None, db)"
    by (simp add: BulkInsert_def)
  have b: "BulkInsert pg rows db = (Some e, db1) \<longrightarrow> delegations db1 = delegations db"
    using BulkInsert_error_keeps_rows by blast
  have c: "fst (BulkInsert pg rows db) \<noteq> None" if k: "k < length rows" "exec_fails pg k (rows ! k)" for k
  proof
    assume n: "fst (BulkInsert pg rows db) = None"
    have ne: "rows \<noteq> []" using k by auto
    from n ne obtain db0 db2 where "exec_rows pg 0 db0 rows = (None, db2)"
      by (auto simp: BulkInsert_def Let_def split: if_splits prod.splits option.splits)
    from exec_rows_no_failure [OF this k(1)] k(2) show False by simp
  qed
  have d: "fst (BulkInsert pg rows db) \<noteq> None \<longrightarrow> delegations (snd (BulkInsert pg rows db)) = delegations db"
    using BulkInsert_error_keeps_rows [of pg rows db] by (cases "BulkInsert pg rows db") auto
  from a b c d show ?thesis by blast
qed

theorem BulkInsert_empty_and_rollback_witness:
  "BulkInsert second_exec_fails two_rows empty_db =
     (Some (ErrInsert 2), \<lparr>delegations = [], id_seq = 1, transactions = 1\<rparr>) \<and>
   delegations (snd (BulkInsert second_exec_fails two_rows empty_db)) = delegations empty_db \<and>
   BulkInsert second_exec_fails [] empty_db = (None, empty_db)"
proof -
  have e: "BulkInsert second_exec_fails two_rows empty_db =
     (Some (ErrInsert 2), \<lparr>delegations = [], id_seq = 1, transactions = 1\<rparr>)"
    by (simp add: BulkInsert_def second_exec_fails_def healthy_def two_rows_def empty_db_def
        insert_row_def rollback_def Let_def)
  have k: "two_rows \<noteq> [] \<and> (\<exists>k < length two_rows. exec_fails second_exec_fails k (two_rows ! k))"
    by (auto simp: two_rows_def second_exec_fails_def intro: exI [of _ 1])
  from BulkInsert_empty_and_rollback [of second_exec_fails empty_db two_rows "ErrInsert 2"
      "\<lparr>delegations = [], id_seq = 1, transactions = 1\<rparr>"] e k
  show ?thesis by blast
qed



section \<open>Properties of the sync engine\<close>

lemma build_batch_filter:
  "build_batch ds batch = batch @ map to_insert (filter (\<lambda>d. Sender_Address d \<noteq> []) ds)"
  by (induction ds arbitrary: batch) simp_all

lemma build_batch_nonempty:
  "r \<in> set (build_batch ds []) \<Longrightarrow> ins_Delegator r \<noteq> []"
  by (auto simp: build_batch_filter to_insert_def)

lemma insert_row_rows:
  "r' \<in> set (delegations (insert_row pg db r)) \<Longrightarrow>
   r' \<in> set (delegations db) \<or>
   (row_tzkt_id r' = TzktID r \<and> row_delegator r' = ins_Delegator r \<and>
    row_timestamp r' = ins_Timestamp r \<and> row_amount r' = ins_Amount r \<and> row_level r' = ins_Level r)"
  by (auto simp: insert_row_def Let_def split: if_splits)

lemma exec_rows_rows:
  "r' \<in> set (delegations (snd (exec_rows pg k db rows))) \<Longrightarrow>
   r' \<in> set (delegations db) \<or>
   (\<exists>r \<in> set rows. row_tzkt_id r' = TzktID r \<and> row_delegator r' = ins_Delegator r \<and>
    row_timestamp r' = ins_Timestamp r \<and> row_amount r' = ins_Amount r \<and> row_level r' = ins_Level r)"
proof (induction rows arbitrary: k db)
  case Nil
  then show ?case by simp
next
  case (Cons r rs)
  show ?case
  proof (cases "exec_fails pg k r")
    case True
    with Cons.prems show ?thesis by simp
  next
    case False
    with Cons.prems have "r' \<in> set (delegations (snd (exec_rows pg (Suc k) (insert_row pg db r) rs)))"
      by simp
    from Cons.IH [OF this] insert_row_rows [of r' pg db r] show ?thesis
      by auto
  qed
qed

lemma BulkInsert_rows:
  assumes "r' \<in> set (delegations (snd (BulkInsert pg rows db)))"
  shows "r' \<in> set (delegations db) \<or>
   (\<exists>r \<in> set rows. row_tzkt_id r' = TzktID r \<and> row_delegator r' = ins_Delegator r \<and>
    row_timestamp r' = ins_Timestamp r \<and> row_amount r' = ins_Amount r \<and> row_level r' = ins_Level r)"
proof -
  let ?db0 = "db\<lparr>transactions := transactions db + 1\<rparr>"
  have "r' \<in> set (delegations db) \<or> r' \<in> set (delegations (snd (exec_rows pg 0 ?db0 rows)))"
    using assms
    by (auto simp: BulkInsert_def Let_def rollback_def split: if_splits prod.splits option.splits)
  then show ?thesis
    using exec_rows_rows [of r' pg 0 ?db0 rows] by auto
qed

text \<open>The database after \<open>syncOnce\<close> is the old one or the result of the bulk insert of the
  filtered batch.\<close>

lemma syncOnce_store:
  "store_after (syncOnce cfg it db) = db \<or>
   (\<exists>ts lvl ds. GetLastSeen (db_session it) db = Inr (ts, lvl) \<and>
      upstream it (fetch_since cfg ts) (BatchSize cfg) = Inr ds \<and>
      store_after (syncOnce cfg it db) = snd (BulkInsert (db_session it) (build_batch ds []) db))"
  by (auto simp: syncOnce_def Let_def split: sum.splits prod.splits option.splits)

lemma syncOnce_rows:
  assumes "r' \<in> set (delegations (store_after (syncOnce cfg it db)))"
  shows "r' \<in> set (delegations db) \<or>
    (\<exists>ts lvl ds d. GetLastSeen (db_session it) db = Inr (ts, lvl) \<and>
        upstream it (fetch_since cfg ts) (BatchSize cfg) = Inr ds \<and> d \<in> set ds \<and>
        Sender_Address d \<noteq> [] \<and> row_tzkt_id r' = ID d \<and> row_delegator r' = Sender_Address d)"
proof -
  from syncOnce_store [of cfg it db] show ?thesis
  proof
    assume "store_after (syncOnce cfg it db) = db"
    with assms show ?thesis by simp
  next
    assume "\<exists>ts lvl ds. GetLastSeen (db_session it) db = Inr (ts, lvl) \<and>
      upstream it (fetch_since cfg ts) (BatchSize cfg) = Inr ds \<and>
      store_after (syncOnce cfg it db) = snd (BulkInsert (db_session it) (build_batch ds []) db)"
    then obtain ts lvl ds where g: "GetLastSeen (db_session it) db = Inr (ts, lvl)"
      and u: "upstream it (fetch_since cfg ts) (BatchSize cfg) = Inr ds"
      and s: "store_after (syncOnce cfg it db) = snd (BulkInsert (db_session it) (build_batch ds []) db)"
      by blast
    from assms s BulkInsert_rows [of r' "db_session it" "build_batch ds []" db]
    have "r' \<in> set (delegations db) \<or>
      (\<exists>r \<in> set (build_batch ds []). row_tzkt_id r' = TzktID r \<and> row_delegator r' = ins_Delegator r)"
      by auto
    then show ?thesis
    proof
      assume "r' \<in> set (delegations db)"
      then show ?thesis by simp
    next
      assume "\<exists>r \<in> set (build_batch ds []). row_tzkt_id r' = TzktID r \<and> row_delegator r' = ins_Delegator r"
      then obtain d where "d \<in> set ds" "Sender_Address d \<noteq> []" "row_tzkt_id r' = ID d"
          "row_delegator r' = Sender_Address d"
        by (auto simp: build_batch_filter to_insert_def)
      with g u show ?thesis by blast
    qed
  qed
qed

lemma syncOnce_nonempty:
  assumes "\<forall>r \<in> set (delegations db). row_delegator r \<noteq> []"
  shows "\<forall>r \<in> set (delegations (store_after (syncOnce cfg it db))). row_delegator r \<noteq> []"
  using assms syncOnce_rows [of _ cfg it db] by fastforce

lemma pass_store:
  "fst (snd (pass cfg it b db)) = db \<or> fst (snd (pass cfg it b db)) = store_after (syncOnce cfg it db)"
  by (auto simp: pass_def Let_def split: sum.splits)

lemma pass_nonempty:
  assumes "\<forall>r \<in> set (delegations db). row_delegator r \<noteq> []"
  shows "\<forall>r \<in> set (delegations (fst (snd (pass cfg it b db)))). row_delegator r \<noteq> []"
  using pass_store [of cfg it b db] syncOnce_nonempty [OF assms, of cfg it] assms by auto

lemma Run_loop_nonempty:
  "\<forall>r \<in> set (delegations db). row_delegator r \<noteq> [] \<Longrightarrow>
   \<forall>r \<in> set (delegations (final_store (Run_loop cfg its b db))). row_delegator r \<noteq> []"
proof (induction its arbitrary: b db)
  case Nil
  then show ?case by simp
next
  case (Cons it its)
  obtain evs db1 nb where p: "pass cfg it b db = (evs, db1, nb)"
    by (cases "pass cfg it b db") auto
  have inv1: "\<forall>r \<in> set (delegations db1). row_delegator r \<noteq> []"
    using pass_nonempty [OF Cons.prems, of cfg it b] p by simp
  show ?case
  proof (cases nb)
    case None
    with p inv1 show ?thesis by simp
  next
    case (Some b1)
    with p Cons.IH [OF inv1, of b1] show ?thesis by (simp add: Let_def)
  qed
qed

lemma syncOnce_mixed:
  "syncOnce cfg2 mixed_iteration empty_db =
     \<lparr>outcome = Inr 1, store_after = one_row_db, fetch_calls = [(63665913600, 2)]\<rparr>"
  by (simp add: syncOnce_def GetLastSeen_def BulkInsert_def insert_row_def fetch_since_def
      IsZero_def Before_def coalesce_def cfg2_def mixed_iteration_def healthy_def empty_db_def
      one_row_db_def with_address_def without_address_def to_insert_def Let_def)

text \<open>
  Claim C7. The batch handed to \<^verbatim>\<open>BulkInsert\<close> is made of exactly the fetched events
  whose delegator address is not empty. Every row in the store after \<^verbatim>\<open>syncOnce\<close> was
  there before or comes from a fetched event with a non-empty address, so \<^verbatim>\<open>syncOnce\<close>
  keeps "every stored row has a non-empty delegator", and every run of the engine that
  starts on the empty store ends in a store with that property.
\<close>

theorem empty_delegator_never_persisted:
  "build_batch ds [] = map to_insert (filter (\<lambda>d. Sender_Address d \<noteq> []) ds) \<and>
   (\<forall>r \<in> set (delegations (store_after (syncOnce cfg it db))).
      r \<in> set (delegations db) \<or>
      (\<exists>ts lvl fetched d. GetLastSeen (db_session it) db = Inr (ts, lvl) \<and>
          upstream it (fetch_since cfg ts) (BatchSize cfg) = Inr fetched \<and> d \<in> set fetched \<and>
          Sender_Address d \<noteq> [] \<and> row_tzkt_id r = ID d \<and> row_delegator r = Sender_Address d)) \<and>
   ((\<forall>r \<in> set (delegations db). row_delegator r \<noteq> []) \<longrightarrow>
      (\<forall>r \<in> set (delegations (store_after (syncOnce cfg it db))). row_delegator r \<noteq> [])) \<and>
   (\<forall>r \<in> set (delegations (final_store (Run cfg its empty_db))). row_delegator r \<noteq> [])"
proof -
  have a: "build_batch ds [] = map to_insert (filter (\<lambda>d. Sender_Address d \<noteq> []) ds)"
    by (simp add: build_batch_filter)
  have b: "\<forall>r \<in> set (delegations (store_after (syncOnce cfg it db))).
      r \<in> set (delegations db) \<or>
      (\<exists>ts lvl fetched d. GetLastSeen (db_session it) db = Inr (ts, lvl) \<and>
          upstream it (fetch_since cfg ts) (BatchSize cfg) = Inr fetched \<and> d \<in> set fetched \<and>
          Sender_Address d \<noteq> [] \<and> row_tzkt_id r = ID d \<and> row_delegator r = Sender_Address d)"
    using syncOnce_rows [of _ cfg it db] by blast
  have c: "(\<forall>r \<in> set (delegations db). row_delegator r \<noteq> []) \<longrightarrow>
      (\<forall>r \<in> set (delegations (store_after (syncOnce cfg it db))). row_delegator r \<noteq> [])"
    using syncOnce_nonempty [of db cfg it] by blast
  have "\<forall>r \<in> set (delegations empty_db). row_delegator r \<noteq> []"
    by (simp add: empty_db_def)
  then have d: "\<forall>r \<in> set (delegations (final_store (Run cfg its empty_db))). row_delegator r \<noteq> []"
    unfolding Run_def by (rule Run_loop_nonempty)
  from a b c d show ?thesis by blast
qed

theorem empty_delegator_never_persisted_witness:
  "upstream mixed_iteration (GenesisStart cfg2) (BatchSize cfg2) = Inr [with_address, without_address] \<and>
   Sender_Address without_address = [] \<and>
   build_batch [with_address, without_address] [] = [to_insert with_address] \<and>
   map row_tzkt_id (delegations (store_after (syncOnce cfg2 mixed_iteration empty_db))) = [1] \<and>
   list_all (\<lambda>r. row_delegator r \<noteq> []) (delegations (store_after (syncOnce cfg2 mixed_iteration empty_db)))"
proof -
  note t = empty_delegator_never_persisted
    [of "[with_address, without_address]" cfg2 mixed_iteration empty_db "[]"]
  from t have b: "build_batch [with_address, without_address] [] =
      map to_insert (filter (\<lambda>d. Sender_Address d \<noteq> []) [with_address, without_address])"
    by blast
  have e: "\<forall>r \<in> set (delegations empty_db). row_delegator r \<noteq> []"
    by (simp add: empty_db_def)
  from t e have n: "\<forall>r \<in> set (delegations (store_after (syncOnce cfg2 mixed_iteration empty_db))).
      row_delegator r \<noteq> []"
    by blast
  from b n show ?thesis
    by (simp add: syncOnce_mixed list_all_iff)
       (simp add: mixed_iteration_def with_address_def without_address_def one_row_db_def)
qed

lemma fetch_since_cases:
  "(IsZero ts \<or> (\<not> IsZero (GenesisStart cfg) \<and> Before ts (GenesisStart cfg))
      \<longrightarrow> fetch_since cfg ts = GenesisStart cfg) \<and>
   (\<not> IsZero ts \<and> \<not> Before ts (GenesisStart cfg) \<longrightarrow> fetch_since cfg ts = ts) \<and>
   (\<not> IsZero ts \<and> \<not> IsZero (GenesisStart cfg) \<longrightarrow> fetch_since cfg ts = max ts (GenesisStart cfg))"
  by (auto simp: fetch_since_def IsZero_def Before_def)

lemma syncOnce_calls:
  "(GetLastSeen (db_session it) db = Inr (ts, lvl) \<longrightarrow>
      fetch_calls (syncOnce cfg it db) = [(fetch_since cfg ts, BatchSize cfg)]) \<and>
   (GetLastSeen (db_session it) db = Inl e \<longrightarrow> fetch_calls (syncOnce cfg it db) = [])"
  by (auto simp: syncOnce_def Let_def split: sum.splits prod.splits option.splits)

lemma GetLastSeen_empty:
  "\<not> query_fails pg \<Longrightarrow> delegations db = [] \<Longrightarrow> GetLastSeen pg db = Inr (0, 0)"
  by (simp add: GetLastSeen_def coalesce_def)

text \<open>
  Claim C2. \<^verbatim>\<open>syncOnce\<close> calls the upstream client once, with the watermark passed
  through the clamp. A watermark that is the zero instant, or that lies before a
  configured (non-zero) genesis floor, is replaced by the genesis floor; a non-zero
  watermark under a configured floor becomes the later of the two. On a store without
  rows the watermark is the zero instant with level 0 and the fetch starts at the
  genesis floor.
\<close>

theorem fetch_window_clamped_to_genesis:
  "(GetLastSeen (db_session it) db = Inr (ts, lvl) \<longrightarrow>
      fetch_calls (syncOnce cfg it db) = [(fetch_since cfg ts, BatchSize cfg)]) \<and>
   (IsZero ts \<or> (\<not> IsZero (GenesisStart cfg) \<and> Before ts (GenesisStart cfg))
      \<longrightarrow> fetch_since cfg ts = GenesisStart cfg) \<and>
   (\<not> IsZero ts \<and> \<not> IsZero (GenesisStart cfg) \<longrightarrow> fetch_since cfg ts = max ts (GenesisStart cfg)) \<and>
   (\<not> query_fails (db_session it) \<and> delegations db = [] \<longrightarrow>
      GetLastSeen (db_session it) db = Inr (0, 0) \<and> IsZero 0 \<and>
      fetch_calls (syncOnce cfg it db) = [(GenesisStart cfg, BatchSize cfg)])"
proof -
  have a: "GetLastSeen (db_session it) db = Inr (ts, lvl) \<longrightarrow>
      fetch_calls (syncOnce cfg it db) = [(fetch_since cfg ts, BatchSize cfg)]"
    using syncOnce_calls [of it db ts lvl cfg] by blast
  have d: "GetLastSeen (db_session it) db = Inr (0, 0) \<and> IsZero 0 \<and>
      fetch_calls (syncOnce cfg it db) = [(GenesisStart cfg, BatchSize cfg)]"
    if h: "\<not> query_fails (db_session it)" "delegations db = []"
  proof -
    have g: "GetLastSeen (db_session it) db = Inr (0, 0)"
      using h by (rule GetLastSeen_empty)
    have z: "fetch_since cfg 0 = GenesisStart cfg"
      by (simp add: fetch_since_def IsZero_def)
    from g z syncOnce_calls [of it db 0 0 cfg] show ?thesis
      by (simp add: IsZero_def)
  qed
  from a d fetch_since_cases [of ts cfg] show ?thesis by blast
qed

theorem fetch_window_clamped_to_genesis_witness:
  "delegations empty_db = [] \<and>
   GetLastSeen (db_session mixed_iteration) empty_db = Inr (0, 0) \<and>
   fetch_calls (syncOnce cfg2 mixed_iteration empty_db) = [(GenesisStart cfg2, BatchSize cfg2)] \<and>
   fetch_since cfg2 63660000000 = GenesisStart cfg2 \<and>
   fetch_since cfg2 63666043200 = 63666043200"
proof -
  have h: "\<not> query_fails (db_session mixed_iteration) \<and> delegations empty_db = []"
    by (simp add: mixed_iteration_def healthy_def empty_db_def)
  have b: "\<not> IsZero (GenesisStart cfg2) \<and> Before 63660000000 (GenesisStart cfg2)"
    by (simp add: IsZero_def Before_def cfg2_def)
  have c: "\<not> IsZero 63666043200 \<and> \<not> IsZero (GenesisStart cfg2)"
    by (simp add: IsZero_def cfg2_def)
  from fetch_window_clamped_to_genesis [of mixed_iteration empty_db 0 0 cfg2] h
  have 1: "GetLastSeen (db_session mixed_iteration) empty_db = Inr (0, 0) \<and>
      fetch_calls (syncOnce cfg2 mixed_iteration empty_db) = [(GenesisStart cfg2, BatchSize cfg2)]"
    by blast
  from fetch_window_clamped_to_genesis [of mixed_iteration empty_db 63660000000 0 cfg2] b
  have 2: "fetch_since cfg2 63660000000 = GenesisStart cfg2"
    by blast
  from fetch_window_clamped_to_genesis [of mixed_iteration empty_db 63666043200 0 cfg2] c
  have 3: "fetch_since cfg2 63666043200 = max 63666043200 (GenesisStart cfg2)"
    by blast
  from h 1 2 3 show ?thesis by (simp add: cfg2_def)
qed

lemma syncOnce_count:
  assumes "outcome (syncOnce cfg it db) = Inr n"
    and "GetLastSeen (db_session it) db = Inr (ts, lvl)"
    and "upstream it (fetch_since cfg ts) (BatchSize cfg) = Inr ds"
  shows "n = int (length (filter (\<lambda>d. Sender_Address d \<noteq> []) ds))"
  using assms
  by (auto simp: syncOnce_def Let_def build_batch_filter split: prod.splits option.splits if_splits)

lemma pass_success:
  assumes "\<not> done_at_head it" "outcome (syncOnce cfg it db) = Inr n"
  shows "pass cfg it b db =
     (if n = BatchSize cfg
      then ([Synced (Inr n)], store_after (syncOnce cfg it db), Some (PollInterval cfg))
      else ([Synced (Inr n), SleepInterval (PollInterval cfg)], store_after (syncOnce cfg it db),
            if done_in_sleep it then None else Some (PollInterval cfg)))"
  using assms by (simp add: pass_def Let_def)

lemma pass_failure:
  assumes "\<not> done_at_head it" "outcome (syncOnce cfg it db) = Inl e"
  shows "pass cfg it b db =
     ([Synced (Inl e), SleepBackoff b], store_after (syncOnce cfg it db),
      if done_in_sleep it then None else Some (next_backoff cfg b))"
  using assms by (simp add: pass_def Let_def)

text \<open>
  Claim C3, as the code has it. After a successful \<^verbatim>\<open>syncOnce\<close> that returned \<open>n\<close>, the
  loop goes on without a sleep exactly when \<open>n\<close> equals \<^verbatim>\<open>BatchSize\<close>, and otherwise
  starts a sleep of the poll interval. \<open>n\<close> is the number of fetched events that have a
  non-empty delegator address. So a fetch of fewer than \<^verbatim>\<open>BatchSize\<close> events, but not
  none, is followed by the sleep; and when no fetched event has an empty address, there
  is no sleep exactly when the fetch returned \<^verbatim>\<open>BatchSize\<close> events.
\<close>

theorem sleep_rule_after_success:
  assumes "\<not> done_at_head it" and "outcome (syncOnce cfg it db) = Inr n"
  shows "(n = BatchSize cfg \<longrightarrow>
            pass cfg it b db = ([Synced (Inr n)], store_after (syncOnce cfg it db), Some (PollInterval cfg))) \<and>
         (n \<noteq> BatchSize cfg \<longrightarrow>
            fst (pass cfg it b db) = [Synced (Inr n), SleepInterval (PollInterval cfg)]) \<and>
         (\<forall>ts lvl ds. GetLastSeen (db_session it) db = Inr (ts, lvl) \<and>
              upstream it (fetch_since cfg ts) (BatchSize cfg) = Inr ds \<longrightarrow>
            n = int (length (filter (\<lambda>d. Sender_Address d \<noteq> []) ds)) \<and>
            (0 < length ds \<and> int (length ds) < BatchSize cfg \<longrightarrow>
               fst (pass cfg it b db) = [Synced (Inr n), SleepInterval (PollInterval cfg)]) \<and>
            ((\<forall>d \<in> set ds. Sender_Address d \<noteq> []) \<longrightarrow>
               (fst (pass cfg it b db) = [Synced (Inr n)]) = (int (length ds) = BatchSize cfg)))"
proof -
  note p = pass_success [OF assms, of b]
  have a: "n = BatchSize cfg \<longrightarrow>
            pass cfg it b db = ([Synced (Inr n)], store_after (syncOnce cfg it db), Some (PollInterval cfg))"
    using p by simp
  have b: "n \<noteq> BatchSize cfg \<longrightarrow>
            fst (pass cfg it b db) = [Synced (Inr n), SleepInterval (PollInterval cfg)]"
    using p by simp
  have c: "n = int (length (filter (\<lambda>d. Sender_Address d \<noteq> []) ds)) \<and>
            (0 < length ds \<and> int (length ds) < BatchSize cfg \<longrightarrow>
               fst (pass cfg it b db) = [Synced (Inr n), SleepInterval (PollInterval cfg)]) \<and>
            ((\<forall>d \<in> set ds. Sender_Address d \<noteq> []) \<longrightarrow>
               (fst (pass cfg it b db) = [Synced (Inr n)]) = (int (length ds) = BatchSize cfg))"
    if g: "GetLastSeen (db_session it) db = Inr (ts, lvl)"
      and u: "upstream it (fetch_since cfg ts) (BatchSize cfg) = Inr ds" for ts lvl ds
  proof -
    have n: "n = int (length (filter (\<lambda>d. Sender_Address d \<noteq> []) ds))"
      using assms(2) g u by (rule syncOnce_count)
    have le: "n \<le> int (length ds)"
      unfolding n by simp
    have few: "fst (pass cfg it b db) = [Synced (Inr n), SleepInterval (PollInterval cfg)]"
      if "int (length ds) < BatchSize cfg"
      using that le b by simp
    have full: "(fst (pass cfg it b db) = [Synced (Inr n)]) = (int (length ds) = BatchSize cfg)"
      if all: "\<forall>d \<in> set ds. Sender_Address d \<noteq> []"
    proof -
      from all have "filter (\<lambda>d. Sender_Address d \<noteq> []) ds = ds"
        by (simp add: filter_id_conv)
      with n have "n = int (length ds)" by simp
      with p show ?thesis by simp
    qed
    from n few full show ?thesis by blast
  qed
  from a b c show ?thesis by blast
qed

lemma syncOnce_full:
  "syncOnce cfg2 full_iteration empty_db =
     \<lparr>outcome = Inr 2,
      store_after = \<lparr>delegations =
        [\<lparr>row_id = 1, row_tzkt_id = 1, row_timestamp = 63666043200, row_amount = 1000,
          row_delegator = ''tz1abc'', row_level = 10, row_year = 2018\<rparr>,
         \<lparr>row_id = 2, row_tzkt_id = 3, row_timestamp = 63666043260, row_amount = 7,
          row_delegator = ''tz1def'', row_level = 11, row_year = 2018\<rparr>],
        id_seq = 2, transactions = 1\<rparr>,
      fetch_calls = [(63665913600, 2)]\<rparr>"
  by (simp add: syncOnce_def GetLastSeen_def BulkInsert_def insert_row_def fetch_since_def
      IsZero_def Before_def coalesce_def cfg2_def full_iteration_def healthy_def empty_db_def
      with_address_def second_with_address_def to_insert_def Let_def)

theorem sleep_rule_after_success_witness:
  "outcome (syncOnce cfg2 full_iteration empty_db) = Inr 2 \<and>
   fst (pass cfg2 full_iteration (15 * Second) empty_db) = [Synced (Inr 2)] \<and>
   outcome (syncOnce cfg2 mixed_iteration empty_db) = Inr 1 \<and>
   fst (pass cfg2 mixed_iteration (15 * Second) empty_db) = [Synced (Inr 1), SleepInterval (15 * Second)]"
proof -
  have h1: "\<not> done_at_head full_iteration" by (simp add: full_iteration_def)
  have o1: "outcome (syncOnce cfg2 full_iteration empty_db) = Inr 2" by (simp add: syncOnce_full)
  have h2: "\<not> done_at_head mixed_iteration" by (simp add: mixed_iteration_def)
  have o2: "outcome (syncOnce cfg2 mixed_iteration empty_db) = Inr 1" by (simp add: syncOnce_mixed)
  from sleep_rule_after_success [OF h1 o1, of "15 * Second"]
  have 1: "fst (pass cfg2 full_iteration (15 * Second) empty_db) = [Synced (Inr 2)]"
    by (simp add: cfg2_def)
  from sleep_rule_after_success [OF h2 o2, of "15 * Second"]
  have 2: "fst (pass cfg2 mixed_iteration (15 * Second) empty_db) = [Synced (Inr 1), SleepInterval (15 * Second)]"
    by (simp add: cfg2_def)
  from o1 o2 1 2 show ?thesis by blast
qed

text \<open>
  Claim C3 as stated fails: a fetch that returns \<^verbatim>\<open>BatchSize\<close> = 2 events, one of them
  with an empty address, is followed by the sleep of the poll interval.
\<close>

theorem full_fetch_with_empty_address_sleeps:
  "upstream mixed_iteration (GenesisStart cfg2) (BatchSize cfg2) = Inr [with_address, without_address] \<and>
   int (length [with_address, without_address]) = BatchSize cfg2 \<and>
   outcome (syncOnce cfg2 mixed_iteration empty_db) = Inr 1 \<and>
   fst (pass cfg2 mixed_iteration (PollInterval cfg2) empty_db) =
     [Synced (Inr 1), SleepInterval (PollInterval cfg2)]"
  by (simp add: pass_def syncOnce_mixed Let_def) (simp add: mixed_iteration_def cfg2_def)

lemma NewPoller_positive:
  "0 < BatchSize (NewPoller cfg) \<and> 0 < PollInterval (NewPoller cfg) \<and> 0 < MaxBackoff (NewPoller cfg)"
  by (simp add: NewPoller_def Let_def Second_def Minute_def)

lemma wrap64_id: "- (2 ^ 63) \<le> x \<Longrightarrow> x < 2 ^ 63 \<Longrightarrow> wrap64 x = x"
  by (simp add: wrap64_def)

lemma next_backoff_le:
  "b \<le> MaxBackoff cfg \<Longrightarrow> next_backoff cfg b \<le> MaxBackoff cfg"
  by (simp add: next_backoff_def Let_def)

lemma next_backoff_doubles:
  assumes "0 < b" "b \<le> MaxBackoff cfg" "MaxBackoff cfg \<le> 2 ^ 62"
  shows "next_backoff cfg b = min (2 * b) (MaxBackoff cfg)"
proof (cases "b < MaxBackoff cfg")
  case True
  with assms have "wrap64 (b * 2) = b * 2"
    by (intro wrap64_id) simp_all
  with True show ?thesis
    by (simp add: next_backoff_def Let_def min_def mult.commute)
next
  case False
  with assms show ?thesis
    by (simp add: next_backoff_def min_def)
qed

lemma pass_cases:
  "pass cfg it b db = ([], db, None) \<and> done_at_head it \<or>
   (\<exists>e. pass cfg it b db = ([Synced (Inl e), SleepBackoff b], store_after (syncOnce cfg it db),
        if done_in_sleep it then None else Some (next_backoff cfg b))) \<or>
   (\<exists>n. pass cfg it b db = ([Synced (Inr n)], store_after (syncOnce cfg it db), Some (PollInterval cfg))) \<or>
   (\<exists>n. pass cfg it b db = ([Synced (Inr n), SleepInterval (PollInterval cfg)],
        store_after (syncOnce cfg it db), if done_in_sleep it then None else Some (PollInterval cfg)))"
  by (cases "outcome (syncOnce cfg it db)") (auto simp: pass_def Let_def)

lemma Run_loop_cap:
  "b \<le> MaxBackoff cfg \<Longrightarrow> PollInterval cfg \<le> MaxBackoff cfg \<Longrightarrow>
   \<forall>d \<in> set (backoff_sleeps (events (Run_loop cfg its b db))). d \<le> MaxBackoff cfg"
proof (induction its arbitrary: b db)
  case Nil
  then show ?case by simp
next
  case (Cons it its)
  note nb = next_backoff_le [OF Cons.prems(1)]
  note ih1 = Cons.IH [OF nb Cons.prems(2)]
  note ih2 = Cons.IH [OF Cons.prems(2) Cons.prems(2)]
  from pass_cases [of cfg it b db] show ?case
  proof (elim disjE exE conjE)
    assume "pass cfg it b db = ([], db, None)"
    then show ?thesis by simp
  next
    fix e
    assume "pass cfg it b db = ([Synced (Inl e), SleepBackoff b], store_after (syncOnce cfg it db),
        if done_in_sleep it then None else Some (next_backoff cfg b))"
    with ih1 Cons.prems(1) show ?thesis by (simp add: Let_def)
  next
    fix n
    assume "pass cfg it b db = ([Synced (Inr n)], store_after (syncOnce cfg it db), Some (PollInterval cfg))"
    with ih2 show ?thesis by (simp add: Let_def)
  next
    fix n
    assume "pass cfg it b db = ([Synced (Inr n), SleepInterval (PollInterval cfg)],
        store_after (syncOnce cfg it db), if done_in_sleep it then None else Some (PollInterval cfg))"
    with ih2 show ?thesis by (simp add: Let_def)
  qed
qed

lemma Run_loop_not_cancelled:
  "\<forall>it \<in> set its. \<not> done_at_head it \<and> \<not> done_in_sleep it \<Longrightarrow>
   status (Run_loop cfg its b db) \<noteq> Returned \<and> passes_done (events (Run_loop cfg its b db)) = length its"
proof (induction its arbitrary: b db)
  case Nil
  then show ?case by simp
next
  case (Cons it its)
  from Cons.prems have h: "\<not> done_at_head it" "\<not> done_in_sleep it"
    and r: "\<forall>it \<in> set its. \<not> done_at_head it \<and> \<not> done_in_sleep it"
    by simp_all
  note ih = Cons.IH [OF r]
  from pass_cases [of cfg it b db] h show ?case
    by (elim disjE exE conjE) (simp_all add: Let_def ih)
qed

lemma min_double_shift:
  fixes b m :: int
  assumes "0 < b" "b \<le> m"
  shows "min (min (2 * b) m * 2 ^ j) m = min (b * 2 ^ Suc j) m"
proof (cases "2 * b \<le> m")
  case True
  then show ?thesis by (simp add: min_def mult.assoc mult.commute mult.left_commute)
next
  case False
  then have m: "m < 2 * b" by simp
  have p: "(1::int) \<le> 2 ^ j" by simp
  have "m * 1 \<le> m * 2 ^ j"
    using assms p by (intro mult_left_mono) simp_all
  then have 1: "min (m * 2 ^ j) m = m" by simp
  have "2 * b * 1 \<le> 2 * b * 2 ^ j"
    using assms p by (intro mult_left_mono) simp_all
  with m have "m \<le> b * 2 ^ Suc j" by (simp add: mult.assoc mult.commute mult.left_commute)
  then have 2: "min (b * 2 ^ Suc j) m = m" by simp
  from False 1 2 show ?thesis by (simp add: min_def)
qed

lemma Run_loop_failures:
  assumes "\<forall>it \<in> set its. \<not> done_at_head it \<and> \<not> done_in_sleep it \<and>
              (\<forall>db. \<exists>e. outcome (syncOnce cfg it db) = Inl e)"
    and "0 < b" "b \<le> MaxBackoff cfg" "MaxBackoff cfg \<le> 2 ^ 62"
  shows "backoff_sleeps (events (Run_loop cfg its b db)) =
           map (\<lambda>j. min (b * 2 ^ j) (MaxBackoff cfg)) [0..<length its] \<and>
         status (Run_loop cfg its b db) = Looping (min (b * 2 ^ length its) (MaxBackoff cfg))"
  using assms
proof (induction its arbitrary: b db)
  case Nil
  then show ?case by simp
next
  case (Cons it its)
  let ?m = "MaxBackoff cfg"
  from Cons.prems(1) have h: "\<not> done_at_head it" "\<not> done_in_sleep it"
    and r: "\<forall>it \<in> set its. \<not> done_at_head it \<and> \<not> done_in_sleep it \<and>
              (\<forall>db. \<exists>e. outcome (syncOnce cfg it db) = Inl e)"
    by simp_all
  from Cons.prems(1) have "\<forall>db. \<exists>e. outcome (syncOnce cfg it db) = Inl e"
    by simp
  then obtain e where e: "outcome (syncOnce cfg it db) = Inl e"
    by blast
  have nb: "next_backoff cfg b = min (2 * b) ?m"
    using Cons.prems(2,3,4) by (rule next_backoff_doubles)
  have pos: "0 < min (2 * b) ?m" and le: "min (2 * b) ?m \<le> ?m"
    using Cons.prems(2,3) by simp_all
  note ih = Cons.IH [OF r pos le Cons.prems(4), of "store_after (syncOnce cfg it db)"]
  have p: "pass cfg it b db = ([Synced (Inl e), SleepBackoff b], store_after (syncOnce cfg it db),
      Some (min (2 * b) ?m))"
    using pass_failure [OF h(1) e, of b] h(2) nb by simp
  have shift: "map (\<lambda>j. min (min (2 * b) ?m * 2 ^ j) ?m) [0..<length its] =
      map (\<lambda>j. min (b * 2 ^ Suc j) ?m) [0..<length its]"
    using min_double_shift [OF Cons.prems(2,3)] by simp
  have upt: "map (\<lambda>j. min (b * 2 ^ j) ?m) [0..<length (it # its)] =
      min (b * 2 ^ 0) ?m # map (\<lambda>j. min (b * 2 ^ Suc j) ?m) [0..<length its]"
    by (simp add: map_upt_Suc del: upt_Suc)
  have b0: "min (b * 2 ^ 0) ?m = b"
    using Cons.prems(3) by simp
  show ?case
    using p ih shift upt b0 min_double_shift [OF Cons.prems(2,3), of "length its"]
    by (simp add: Let_def del: upt_Suc power_Suc)
qed

lemma failing_iteration_fails:
  "outcome (syncOnce cfg failing_iteration db) = Inl (ErrFetch (fetch_since cfg (coalesce (max_of (map row_timestamp (delegations db))) 0)) ErrNetwork)"
  by (simp add: syncOnce_def GetLastSeen_def failing_iteration_def healthy_def Let_def)

text \<open>
  Claim C4, as the code has it, for a poll interval that is positive and not above the
  maximal backoff, and a maximal backoff of at most \<open>2 ^ 62\<close> nanoseconds. A failed pass
  starts a sleep of the current backoff and, unless the context is done during the
  sleep, goes on with the backoff doubled and capped. After a successful pass the
  backoff is the poll interval. No backoff sleep of a run exceeds the maximum; passes
  that all fail sleep the poll interval times 1, 2, 4, ..., capped; and a run whose
  context is never done does not return and makes every pass.
\<close>

theorem backoff_rule:
  assumes "0 < PollInterval cfg" and "PollInterval cfg \<le> MaxBackoff cfg" and "MaxBackoff cfg \<le> 2 ^ 62"
  shows
   "(\<not> done_at_head it \<and> outcome (syncOnce cfg it db) = Inl e \<longrightarrow>
       pass cfg it b db =
         ([Synced (Inl e), SleepBackoff b], store_after (syncOnce cfg it db),
          if done_in_sleep it then None else Some (next_backoff cfg b))) \<and>
    (0 < b \<and> b \<le> MaxBackoff cfg \<longrightarrow> next_backoff cfg b = min (2 * b) (MaxBackoff cfg)) \<and>
    (\<not> done_at_head it \<and> outcome (syncOnce cfg it db) = Inr n \<and>
       snd (snd (pass cfg it b db)) = Some b' \<longrightarrow> b' = PollInterval cfg) \<and>
    (\<forall>d \<in> set (backoff_sleeps (events (Run cfg its db))). d \<le> MaxBackoff cfg) \<and>
    ((\<forall>it \<in> set its. \<not> done_at_head it \<and> \<not> done_in_sleep it \<and>
         (\<forall>db. \<exists>e. outcome (syncOnce cfg it db) = Inl e)) \<longrightarrow>
       backoff_sleeps (events (Run cfg its db)) =
         map (\<lambda>j. min (PollInterval cfg * 2 ^ j) (MaxBackoff cfg)) [0..<length its]) \<and>
    ((\<forall>it \<in> set its. \<not> done_at_head it \<and> \<not> done_in_sleep it) \<longrightarrow>
       status (Run cfg its db) \<noteq> Returned \<and> passes_done (events (Run cfg its db)) = length its)"
proof -
  have a: "\<not> done_at_head it \<and> outcome (syncOnce cfg it db) = Inl e \<longrightarrow>
       pass cfg it b db =
         ([Synced (Inl e), SleepBackoff b], store_after (syncOnce cfg it db),
          if done_in_sleep it then None else Some (next_backoff cfg b))"
    using pass_failure [of it cfg db e b] by blast
  have b: "0 < b \<and> b \<le> MaxBackoff cfg \<longrightarrow> next_backoff cfg b = min (2 * b) (MaxBackoff cfg)"
    using next_backoff_doubles [of b cfg] assms(3) by blast
  have c: "\<not> done_at_head it \<and> outcome (syncOnce cfg it db) = Inr n \<and>
       snd (snd (pass cfg it b db)) = Some b' \<longrightarrow> b' = PollInterval cfg"
    using pass_success [of it cfg db n b] by (auto split: if_splits)
  have d: "\<forall>d \<in> set (backoff_sleeps (events (Run cfg its db))). d \<le> MaxBackoff cfg"
    unfolding Run_def using assms(2) assms(2) by (rule Run_loop_cap)
  have e: "backoff_sleeps (events (Run cfg its db)) =
         map (\<lambda>j. min (PollInterval cfg * 2 ^ j) (MaxBackoff cfg)) [0..<length its]"
    if "\<forall>it \<in> set its. \<not> done_at_head it \<and> \<not> done_in_sleep it \<and>
         (\<forall>db. \<exists>e. outcome (syncOnce cfg it db) = Inl e)"
    unfolding Run_def using Run_loop_failures [OF that assms] by blast
  have f: "status (Run cfg its db) \<noteq> Returned \<and> passes_done (events (Run cfg its db)) = length its"
    if "\<forall>it \<in> set its. \<not> done_at_head it \<and> \<not> done_in_sleep it"
    unfolding Run_def using that by (rule Run_loop_not_cancelled)
  from a b c d e f show ?thesis by blast
qed

theorem backoff_rule_witness:
  "PollInterval cfg_1s_8s = 1 * Second \<and> MaxBackoff cfg_1s_8s = 8 * Second \<and>
   backoff_sleeps (events (Run cfg_1s_8s [failing_iteration, failing_iteration, failing_iteration] empty_db)) =
     [1 * Second, 2 * Second, 4 * Second] \<and>
   status (Run cfg_1s_8s [failing_iteration, failing_iteration, failing_iteration] empty_db) \<noteq> Returned"
proof -
  let ?its = "[failing_iteration, failing_iteration, failing_iteration]"
  have h1: "0 < PollInterval cfg_1s_8s" and h2: "PollInterval cfg_1s_8s \<le> MaxBackoff cfg_1s_8s"
    and h3: "MaxBackoff cfg_1s_8s \<le> 2 ^ 62"
    by (simp_all add: cfg_1s_8s_def Second_def)
  have fails: "\<forall>it \<in> set ?its. \<not> done_at_head it \<and> \<not> done_in_sleep it \<and>
         (\<forall>db. \<exists>e. outcome (syncOnce cfg_1s_8s it db) = Inl e)"
    by (simp add: failing_iteration_fails) (simp add: failing_iteration_def)
  have live: "\<forall>it \<in> set ?its. \<not> done_at_head it \<and> \<not> done_in_sleep it"
    by (simp add: failing_iteration_def)
  note t = backoff_rule [OF h1 h2 h3, where its = ?its and db = empty_db]
  from t fails have s: "backoff_sleeps (events (Run cfg_1s_8s ?its empty_db)) =
      map (\<lambda>j. min (PollInterval cfg_1s_8s * 2 ^ j) (MaxBackoff cfg_1s_8s)) [0..<length ?its]"
    by blast
  from t live have r: "status (Run cfg_1s_8s ?its empty_db) \<noteq> Returned"
    by blast
  have u: "[0..<length ?its] = [0, 1, 2]"
    by (simp add: upt_rec)
  have v: "map (\<lambda>j. min (PollInterval cfg_1s_8s * 2 ^ j) (MaxBackoff cfg_1s_8s)) [0, 1, 2] =
      [1 * Second, 2 * Second, 4 * Second]"
    by (simp add: cfg_1s_8s_def Second_def)
  from s r u v show ?thesis by (simp add: cfg_1s_8s_def)
qed

text \<open>
  Claim C4 as stated fails: with a poll interval of 10 s and a maximal backoff of 8 s
  (a configuration \<^verbatim>\<open>NewPoller\<close> keeps as it is) the first failed pass sleeps 10 s.
  And under a maximal backoff above \<open>2 ^ 62\<close> nanoseconds the 64-bit doubling can wrap
  to a negative backoff.
\<close>

theorem first_backoff_above_cap:
  "NewPoller cfg_10s_8s = cfg_10s_8s \<and>
   events (Run cfg_10s_8s [failing_iteration] empty_db) =
     [Synced (Inl (ErrFetch 63665913600 ErrNetwork)), SleepBackoff (10 * Second)] \<and>
   MaxBackoff cfg_10s_8s < 10 * Second \<and>
   next_backoff (cfg_10s_8s\<lparr>MaxBackoff := 2 ^ 63 - 1\<rparr>) (2 ^ 62) = - (2 ^ 63)"
  by (simp add: Run_def pass_def failing_iteration_fails Let_def)
     (simp add: NewPoller_def cfg_10s_8s_def failing_iteration_def empty_db_def fetch_since_def
       coalesce_def IsZero_def Before_def Second_def next_backoff_def wrap64_def Let_def)
section \<open>Properties of the upstream client\<close>

lemma attempts_simps [simp]:
  "attempts [] = []"
  "attempts (Attempt k # evs) = k # attempts evs"
  "attempts (Waited d # evs) = attempts evs"
  "attempts (xs @ ys) = attempts xs @ attempts ys"
  by (simp_all add: attempts_def)

lemma waits_simps [simp]:
  "waits [] = []"
  "waits (Attempt k # evs) = waits evs"
  "waits (Waited d # evs) = d # waits evs"
  "waits (xs @ ys) = waits xs @ waits ys"
  by (simp_all add: waits_def)

lemma retry_loop_end: "maxRetries \<le> a \<Longrightarrow> retry_loop tr req a b resp err = ([], Inr (resp, err))"
  by (subst retry_loop.simps) simp

lemma retry_loop_attempts:
  "retry_loop tr req a b resp err = (evs, res) \<Longrightarrow>
   \<exists>n. attempts evs = [a..<a + n] \<and> (a \<le> maxRetries \<longrightarrow> a + n \<le> maxRetries)"
proof (induction tr req a b resp err arbitrary: evs res rule: retry_loop.induct)
  case (1 tr req attempt backoff resp lastErr)
  show ?case
  proof (cases "attempt < maxRetries")
    case False
    with "1.prems" show ?thesis by (intro exI [of _ 0]) (simp add: retry_loop_end)
  next
    case lt: True
    show ?thesis
    proof (cases "0 < attempt \<and> done_in_backoff tr attempt")
      case True
      with lt "1.prems" have "evs = []" by (subst (asm) retry_loop.simps) auto
      then show ?thesis by (intro exI [of _ 0]) simp
    next
      case nd: False
      let ?w = "if 0 < attempt then [Waited backoff] else []"
      let ?b = "if 0 < attempt then wrap64 (backoff * 2) else backoff"
      show ?thesis
      proof (cases "Do tr req attempt")
        case NetworkError
        obtain evs1 res1 where r: "retry_loop tr req (attempt + 1) ?b None (Some ErrNetwork) = (evs1, res1)"
          by (cases "retry_loop tr req (attempt + 1) ?b None (Some ErrNetwork)") auto
        from "1.IH"(1) [OF lt nd refl refl NetworkError r]
        obtain n where ih: "attempts evs1 = [attempt + 1..<attempt + 1 + n]"
            "attempt + 1 \<le> maxRetries \<longrightarrow> attempt + 1 + n \<le> maxRetries"
          by blast
        from "1.prems" lt nd NetworkError r have "evs = ?w @ Attempt attempt # evs1"
          by (subst (asm) retry_loop.simps) (auto simp: Let_def)
        then have "attempts evs = [attempt..<attempt + Suc n]"
          using ih(1) by (simp add: upt_conv_Cons del: upt_Suc)
        with ih(2) lt show ?thesis
          by (intro exI [of _ "Suc n"]) simp
      next
        case (Response r)
        show ?thesis
        proof (cases "StatusCode r = 429 \<and> \<not> close_fails r")
          case True
          obtain evs1 res1 where rr: "retry_loop tr req (attempt + 1) ?b (Some r) None = (evs1, res1)"
            by (cases "retry_loop tr req (attempt + 1) ?b (Some r) None") auto
          from True have s: "StatusCode r = 429" and c: "\<not> close_fails r" by simp_all
          from "1.IH"(2) [OF lt nd refl refl Response s c rr]
          obtain n where ih: "attempts evs1 = [attempt + 1..<attempt + 1 + n]"
            "attempt + 1 \<le> maxRetries \<longrightarrow> attempt + 1 + n \<le> maxRetries"
          by blast
          from "1.prems" lt nd Response True rr have "evs = ?w @ Attempt attempt # evs1"
            by (subst (asm) retry_loop.simps) (auto simp: Let_def)
          then have "attempts evs = [attempt..<attempt + Suc n]"
            using ih(1) by (simp add: upt_conv_Cons del: upt_Suc)
          with ih(2) lt show ?thesis
            by (intro exI [of _ "Suc n"]) simp
        next
          case False
          with "1.prems" lt nd Response have "evs = ?w @ [Attempt attempt]"
            by (subst (asm) retry_loop.simps) (auto simp: Let_def split: if_splits)
          with lt show ?thesis by (intro exI [of _ "Suc 0"]) auto
        qed
      qed
    qed
  qed
qed

declare retry_loop.simps [simp del]

lemma retry_loop_2: "retry_loop tr req 2 b resp err = third_attempt tr req b"
  by (subst retry_loop.simps)
     (simp add: third_attempt_def maxRetries_def retry_loop_end Let_def split: http_outcome.splits)

lemma retry_loop_2': "retry_loop tr req (Suc (Suc 0)) b resp err = third_attempt tr req b"
  using retry_loop_2 [of tr req b resp err] by (simp add: numeral_2_eq_2)

lemma retry_loop_1:
  "retry_loop tr req (Suc 0) b resp err =
     (if done_in_backoff tr (Suc 0) then ([], Inl ErrContext)
      else (case Do tr req (Suc 0) of
              NetworkError \<Rightarrow>
                (case third_attempt tr req (wrap64 (b * 2)) of
                   (evs, res) \<Rightarrow> (Waited b # Attempt (Suc 0) # evs, res))
            | Response r \<Rightarrow>
                if StatusCode r = 429 then
                  (if close_fails r then ([Waited b, Attempt (Suc 0)], Inl ErrBodyClose)
                   else (case third_attempt tr req (wrap64 (b * 2)) of
                           (evs, res) \<Rightarrow> (Waited b # Attempt (Suc 0) # evs, res)))
                else ([Waited b, Attempt (Suc 0)], Inr (Some r, None))))"
  by (subst retry_loop.simps)
     (simp add: maxRetries_def Let_def retry_loop_2' split: http_outcome.splits)

lemma retry_loop_0:
  "retry_loop tr req 0 b resp err =
     (case Do tr req 0 of
        NetworkError \<Rightarrow>
          (case retry_loop tr req (Suc 0) b None (Some ErrNetwork) of
             (evs, res) \<Rightarrow> (Attempt 0 # evs, res))
      | Response r \<Rightarrow>
          if StatusCode r = 429 then
            (if close_fails r then ([Attempt 0], Inl ErrBodyClose)
             else (case retry_loop tr req (Suc 0) b (Some r) None of
                     (evs, res) \<Rightarrow> (Attempt 0 # evs, res)))
          else ([Attempt 0], Inr (Some r, None)))"
  by (subst retry_loop.simps)
     (simp add: maxRetries_def Let_def split: http_outcome.splits)

lemmas retry_unfold = retry_loop_0 retry_loop_1 third_attempt_def

lemma fetch_events:
  "fst (FetchDelegations tr since limit) =
     (if limiter_fails tr \<or> url_invalid tr \<or> request_invalid tr then []
      else fst (retry_loop tr (since, limit) 0 (1 * Second) None None))"
  by (auto simp: FetchDelegations_def split: prod.splits sum.splits)

lemma fetch_result:
  "\<not> limiter_fails tr \<Longrightarrow> \<not> url_invalid tr \<Longrightarrow> \<not> request_invalid tr \<Longrightarrow>
   snd (FetchDelegations tr since limit) =
     (case snd (retry_loop tr (since, limit) 0 (1 * Second) None None) of
        Inl e \<Rightarrow> Inl (Failed e)
      | Inr (resp, lastErr) \<Rightarrow> after_loop resp lastErr)"
  by (auto simp: FetchDelegations_def split: prod.splits sum.splits)

lemma retry_waits:
  "waits (fst (retry_loop tr req 0 b None None)) =
     take (length (attempts (fst (retry_loop tr req 0 b None None))) - 1) [b, wrap64 (b * 2)]"
  by (simp add: retry_unfold split: http_outcome.splits)

lemma retry_only_when:
  "Suc k \<in> set (attempts (fst (retry_loop tr req 0 b None None))) \<Longrightarrow>
   (Do tr req k = NetworkError \<or> (\<exists>r. Do tr req k = Response r \<and> StatusCode r = 429)) \<and>
   \<not> done_in_backoff tr (Suc k)"
  by (auto simp: retry_unfold numeral_2_eq_2 split: http_outcome.splits if_splits)

lemma retry_when:
  "k \<in> set (attempts (fst (retry_loop tr req 0 b None None))) \<Longrightarrow> Suc k < maxRetries \<Longrightarrow>
   Do tr req k = NetworkError \<or> (\<exists>r. Do tr req k = Response r \<and> StatusCode r = 429 \<and> \<not> close_fails r) \<Longrightarrow>
   \<not> done_in_backoff tr (Suc k) \<Longrightarrow>
   Suc k \<in> set (attempts (fst (retry_loop tr req 0 b None None)))"
  by (auto simp: retry_unfold maxRetries_def numeral_2_eq_2 numeral_3_eq_3 less_Suc_eq
      split: http_outcome.splits if_splits)

lemma retry_ends:
  "k \<in> set (attempts (fst (retry_loop tr req 0 b None None))) \<Longrightarrow>
   Do tr req k = Response r \<Longrightarrow> StatusCode r \<noteq> 429 \<Longrightarrow>
   Suc k \<notin> set (attempts (fst (retry_loop tr req 0 b None None))) \<and>
   snd (retry_loop tr req 0 b None None) = Inr (Some r, None)"
  by (auto simp: retry_unfold numeral_2_eq_2 split: http_outcome.splits if_splits)

lemma retry_response:
  "snd (retry_loop tr req 0 b None None) = Inr (Some r, None) \<Longrightarrow>
   \<exists>k \<in> set (attempts (fst (retry_loop tr req 0 b None None))). Do tr req k = Response r"
  by (auto simp: retry_unfold numeral_2_eq_2 split: http_outcome.splits if_splits)

lemma after_loop_success:
  "after_loop resp lastErr = Inr out \<Longrightarrow>
   \<exists>r. resp = Some r \<and> lastErr = None \<and> StatusCode r < 300 \<and> payload r = Some out"
  by (auto simp: after_loop_def split: option.splits if_splits)

text \<open>
  Claim C5, as the code has it. One call of \<^verbatim>\<open>FetchDelegations\<close> makes at most three
  attempts, numbered from 0, and waits 1 s before the second and 2 s before the third.
  An attempt is followed by another only after a network-level error or a 429
  response (and only if the context is not done during the wait), and after those it
  is followed by another as long as fewer than three were made. Any other response,
  a 5xx among them, ends the loop: its status is reported as an error when it is 300
  or more, and otherwise its body is decoded. The call succeeds only with a response
  whose status is below 300.
\<close>

theorem fetch_retry_policy:
  assumes "FetchDelegations tr since limit = (evs, res)"
  shows
   "(\<exists>n \<le> 3. attempts evs = [0..<n]) \<and>
    waits evs = take (length (attempts evs) - 1) [1 * Second, 2 * Second] \<and>
    (\<forall>k. Suc k \<in> set (attempts evs) \<longrightarrow>
       (Do tr (since, limit) k = NetworkError \<or>
        (\<exists>r. Do tr (since, limit) k = Response r \<and> StatusCode r = 429)) \<and>
       \<not> done_in_backoff tr (Suc k)) \<and>
    (\<forall>k. k \<in> set (attempts evs) \<and> Suc k < 3 \<and>
       (Do tr (since, limit) k = NetworkError \<or>
        (\<exists>r. Do tr (since, limit) k = Response r \<and> StatusCode r = 429 \<and> \<not> close_fails r)) \<and>
       \<not> done_in_backoff tr (Suc k) \<longrightarrow> Suc k \<in> set (attempts evs)) \<and>
    (\<forall>k r. k \<in> set (attempts evs) \<and> Do tr (since, limit) k = Response r \<and> StatusCode r \<noteq> 429 \<longrightarrow>
       Suc k \<notin> set (attempts evs) \<and>
       res = (if 300 \<le> StatusCode r then Inl (Failed (ErrStatus (StatusCode r)))
              else case payload r of None \<Rightarrow> Inl (Failed ErrDecode) | Some out \<Rightarrow> Inr out)) \<and>
    (\<forall>out. res = Inr out \<longrightarrow>
       (\<exists>k r. k \<in> set (attempts evs) \<and> Do tr (since, limit) k = Response r \<and>
          StatusCode r < 300 \<and> payload r = Some out))"
proof (cases "limiter_fails tr \<or> url_invalid tr \<or> request_invalid tr")
  case True
  with assms have "evs = []" and "\<exists>e. res = Inl e"
    by (auto simp: FetchDelegations_def split: if_splits)
  then show ?thesis by auto
next
  case False
  let ?req = "(since, limit)"
  let ?L = "retry_loop tr ?req 0 (1 * Second) None None"
  from False have ok: "\<not> limiter_fails tr" "\<not> url_invalid tr" "\<not> request_invalid tr"
    by simp_all
  have evs: "evs = fst ?L"
    using fetch_events [of tr since limit] assms False by simp
  have res: "res = (case snd ?L of Inl e \<Rightarrow> Inl (Failed e) | Inr (resp, lastErr) \<Rightarrow> after_loop resp lastErr)"
    using fetch_result [OF ok, of since limit] assms by simp
  obtain evs0 res0 where L: "?L = (evs0, res0)"
    by (cases ?L) auto
  have a: "\<exists>n \<le> 3. attempts evs = [0..<n]"
    using retry_loop_attempts [OF L] evs L by (auto simp: maxRetries_def)
  have w2: "wrap64 (1 * Second * 2) = 2 * Second"
    by (simp add: wrap64_def Second_def)
  have b: "waits evs = take (length (attempts evs) - 1) [1 * Second, 2 * Second]"
    using retry_waits [of tr ?req "1 * Second"] w2 evs by simp
  have c: "\<forall>k. Suc k \<in> set (attempts evs) \<longrightarrow>
       (Do tr ?req k = NetworkError \<or> (\<exists>r. Do tr ?req k = Response r \<and> StatusCode r = 429)) \<and>
       \<not> done_in_backoff tr (Suc k)"
    using retry_only_when [of _ tr ?req "1 * Second"] evs by blast
  have d: "\<forall>k. k \<in> set (attempts evs) \<and> Suc k < 3 \<and>
       (Do tr ?req k = NetworkError \<or>
        (\<exists>r. Do tr ?req k = Response r \<and> StatusCode r = 429 \<and> \<not> close_fails r)) \<and>
       \<not> done_in_backoff tr (Suc k) \<longrightarrow> Suc k \<in> set (attempts evs)"
    using retry_when [of _ tr ?req "1 * Second"] evs by (simp add: maxRetries_def)
  have e: "Suc k \<notin> set (attempts evs) \<and>
       res = (if 300 \<le> StatusCode r then Inl (Failed (ErrStatus (StatusCode r)))
              else case payload r of None \<Rightarrow> Inl (Failed ErrDecode) | Some out \<Rightarrow> Inr out)"
    if "k \<in> set (attempts evs)" "Do tr ?req k = Response r" "StatusCode r \<noteq> 429" for k r
  proof -
    from that evs have k: "k \<in> set (attempts (fst ?L))" by simp
    from retry_ends [OF k that(2,3)]
    have "Suc k \<notin> set (attempts (fst ?L))" and "snd ?L = Inr (Some r, None)"
      by simp_all
    with evs res show ?thesis by (simp add: after_loop_def)
  qed
  have f: "\<exists>k r. k \<in> set (attempts evs) \<and> Do tr ?req k = Response r \<and>
          StatusCode r < 300 \<and> payload r = Some out" if "res = Inr out" for out
  proof -
    from that res obtain resp lastErr where s: "snd ?L = Inr (resp, lastErr)"
      and al: "after_loop resp lastErr = Inr out"
      by (auto split: sum.splits prod.splits)
    from after_loop_success [OF al] obtain r where r: "resp = Some r" "lastErr = None"
      "StatusCode r < 300" "payload r = Some out"
      by blast
    from s r have "snd ?L = Inr (Some r, None)" by simp
    from retry_response [OF this] evs r show ?thesis by blast
  qed
  from a b c d e f show ?thesis by blast
qed

lemma fetch_flaky:
  "FetchDelegations flaky_transport since limit =
     ([Attempt 0, Waited (1 * Second), Attempt 1, Waited (2 * Second), Attempt 2], Inr [with_address])"
  by (simp add: FetchDelegations_def retry_unfold after_loop_def flaky_transport_def
      healthy_transport_def wrap64_def Second_def)

theorem fetch_retry_policy_witness:
  "FetchDelegations flaky_transport 63665913600 100 =
     ([Attempt 0, Waited (1 * Second), Attempt 1, Waited (2 * Second), Attempt 2], Inr [with_address]) \<and>
   attempts [Attempt 0, Waited (1 * Second), Attempt 1, Waited (2 * Second), Attempt 2] = [0, 1, 2] \<and>
   waits [Attempt 0, Waited (1 * Second), Attempt 1, Waited (2 * Second), Attempt 2] = [1 * Second, 2 * Second] \<and>
   Do flaky_transport (63665913600, 100) 0 = NetworkError \<and>
   Do flaky_transport (63665913600, 100) 1 =
     Response \<lparr>StatusCode = 429, close_fails = False, payload = None\<rparr>"
proof -
  have f: "FetchDelegations flaky_transport 63665913600 100 =
     ([Attempt 0, Waited (1 * Second), Attempt 1, Waited (2 * Second), Attempt 2], Inr [with_address])"
    by (rule fetch_flaky)
  from fetch_retry_policy [OF f]
  have "waits [Attempt 0, Waited (1 * Second), Attempt 1, Waited (2 * Second), Attempt 2] =
      take (length (attempts [Attempt 0, Waited (1 * Second), Attempt 1, Waited (2 * Second), Attempt 2]) - 1)
        [1 * Second, 2 * Second]"
    by blast
  with f show ?thesis
    by (simp add: flaky_transport_def healthy_transport_def)
qed

text \<open>
  Claim C5 as stated fails for 5xx responses: a 500 on the first attempt ends the call
  after that one attempt.
\<close>

theorem server_error_not_retried:
  "Do server_error_transport (63665913600, 100) 0 =
     Response \<lparr>StatusCode = 500, close_fails = False, payload = None\<rparr> \<and>
   FetchDelegations server_error_transport 63665913600 100 = ([Attempt 0], Inl (Failed (ErrStatus 500)))"
  by (simp add: FetchDelegations_def retry_unfold after_loop_def server_error_transport_def
      healthy_transport_def)

section \<open>Properties of the read endpoint\<close>

lemma render_rows_append:
  "render_rows fmt rows (Some acc) =
     Some (acc @ map (\<lambda>d. \<lparr>resp_Timestamp = fmt (Timestamp d), resp_Amount = FormatInt (Amount d),
                           resp_Delegator = Delegator d, resp_Level = FormatInt (Level d)\<rparr>) rows)"
  by (induction rows arbitrary: acc) (simp_all add: append_slice_def)

lemma Encode_render:
  "Encode (render_rows fmt rows make_slice) =
     JArray (map (\<lambda>d. \<lparr>resp_Timestamp = fmt (Timestamp d), resp_Amount = FormatInt (Amount d),
                        resp_Delegator = Delegator d, resp_Level = FormatInt (Level d)\<rparr>) rows)"
  by (simp add: make_slice_def render_rows_append Encode_def)

lemma parse_year_reject:
  "s \<noteq> [] \<Longrightarrow> Atoi s = None \<or> (\<exists>y. Atoi s = Some y \<and> y < 2018) \<Longrightarrow> parse_year s = Inl ()"
  by (auto simp: parse_year_def)

lemma parse_page_reject:
  "s \<noteq> [] \<Longrightarrow> Atoi s = None \<or> (\<exists>p. Atoi s = Some p \<and> p < 1) \<Longrightarrow> parse_page s = Inl ()"
  by (auto simp: parse_page_def)

lemma parse_year_accept:
  "parse_year s = Inr year \<Longrightarrow>
   (s = [] \<and> year = None) \<or> (\<exists>y. Atoi s = Some y \<and> 2018 \<le> y \<and> year = Some y)"
  by (auto simp: parse_year_def split: if_splits option.splits)

lemma parse_page_accept:
  "parse_page s = Inr page \<Longrightarrow> (s = [] \<and> page = 1) \<or> (Atoi s = Some page \<and> 1 \<le> page)"
  by (auto simp: parse_page_def split: if_splits option.splits)

lemma parse_digits_all:
  "parse_digits ds acc = Some n \<Longrightarrow> list_all is_digit ds"
  by (induction ds arbitrary: acc) (auto split: if_splits)

lemma Atoi_numeric:
  assumes "Atoi s = Some n"
  shows "s \<noteq> [] \<and> list_all is_digit (tl s) \<and>
         (is_digit (hd s) \<or> hd s = CHR ''-'' \<or> hd s = CHR ''+'') \<and> - (2 ^ 63) \<le> n \<and> n < 2 ^ 63"
proof (cases s)
  case Nil
  with assms show ?thesis by (simp add: Atoi_def)
next
  case (Cons c cs)
  have u: "list_all is_digit ds \<and> - (2 ^ 63) \<le> n \<and> n < 2 ^ 63" if "parse_unsigned neg ds = Some n" for neg ds
    using that parse_digits_all [of ds 0]
    by (auto simp: parse_unsigned_def Let_def split: if_splits option.splits)
  from assms Cons show ?thesis
    using u [of True cs] u [of False cs] u [of False s]
    by (auto simp: Atoi_def split: if_splits)
qed

lemma offset_exact:
  "1 \<le> page \<Longrightarrow> page \<le> 184467440737095517 \<Longrightarrow> wrap64 ((page - 1) * pageSize) = (page - 1) * pageSize"
  by (simp add: wrap64_def pageSize_def)

lemma handle_invalid_year:
  "parse_year (Get query ''year'') = Inl () \<Longrightarrow>
   handleDelegations fmt getPage query = (\<lparr>code = 400, content = PlainText ''invalid year''\<rparr>, [])"
  by (simp add: handleDelegations_def)

lemma handle_invalid_page:
  "parse_page (Get query ''page'') = Inl () \<Longrightarrow>
   code (fst (handleDelegations fmt getPage query)) = 400 \<and> snd (handleDelegations fmt getPage query) = [] \<and>
   (\<exists>msg. content (fst (handleDelegations fmt getPage query)) = PlainText msg)"
  by (auto simp: handleDelegations_def split: sum.splits)

lemma handle_valid:
  "parse_year (Get query ''year'') = Inr year \<Longrightarrow> parse_page (Get query ''page'') = Inr page \<Longrightarrow>
   handleDelegations fmt getPage query =
     (case getPage year pageSize (wrap64 ((page - 1) * pageSize)) of
        Inl e \<Rightarrow> \<lparr>code = 500, content = PlainText ''internal error''\<rparr>
      | Inr rows \<Rightarrow> \<lparr>code = 200, content = JSON (Encode (render_rows fmt rows make_slice))\<rparr>,
      [(year, pageSize, wrap64 ((page - 1) * pageSize))])"
  by (simp add: handleDelegations_def Let_def split: sum.splits)

lemma handle_code_calls:
  "(code (fst (handleDelegations fmt getPage query)) = 400) = (snd (handleDelegations fmt getPage query) = [])"
  by (auto simp: handleDelegations_def Let_def split: sum.splits)

text \<open>
  Claim C9, as the code has it. A \<^verbatim>\<open>year\<close> value that is not empty and that \<^verbatim>\<open>Atoi\<close>
  rejects, or that is below 2018, is answered with status 400 and no call to the
  store; so is a \<^verbatim>\<open>page\<close> value that is not empty and that \<^verbatim>\<open>Atoi\<close> rejects, or that
  is below 1. \<^verbatim>\<open>Atoi\<close> accepts only an optional sign followed by decimal digits. A
  request that passes both checks calls the store once, with limit 50 and the offset
  \<open>(page - 1) * 50\<close> computed in 64 bits, which is that product for every page up to
  184467440737095517. Status 400 is given exactly when the store is not called.
\<close>

theorem request_validation:
  "(Get query ''year'' \<noteq> [] \<and>
      (Atoi (Get query ''year'') = None \<or> (\<exists>y. Atoi (Get query ''year'') = Some y \<and> y < 2018)) \<longrightarrow>
      handleDelegations fmt getPage query = (\<lparr>code = 400, content = PlainText ''invalid year''\<rparr>, [])) \<and>
   (Get query ''page'' \<noteq> [] \<and>
      (Atoi (Get query ''page'') = None \<or> (\<exists>p. Atoi (Get query ''page'') = Some p \<and> p < 1)) \<longrightarrow>
      code (fst (handleDelegations fmt getPage query)) = 400 \<and>
      snd (handleDelegations fmt getPage query) = []) \<and>
   (\<forall>s n. Atoi s = Some n \<longrightarrow>
      s \<noteq> [] \<and> list_all is_digit (tl s) \<and> (is_digit (hd s) \<or> hd s = CHR ''-'' \<or> hd s = CHR ''+'')) \<and>
   (\<forall>year page. parse_year (Get query ''year'') = Inr year \<and> parse_page (Get query ''page'') = Inr page \<longrightarrow>
      snd (handleDelegations fmt getPage query) = [(year, 50, wrap64 ((page - 1) * 50))] \<and>
      (page \<le> 184467440737095517 \<longrightarrow> wrap64 ((page - 1) * 50) = (page - 1) * 50)) \<and>
   ((code (fst (handleDelegations fmt getPage query)) = 400) =
      (snd (handleDelegations fmt getPage query) = []))"
proof -
  let ?H = "handleDelegations fmt getPage query"
  have a: "Get query ''year'' \<noteq> [] \<and>
      (Atoi (Get query ''year'') = None \<or> (\<exists>y. Atoi (Get query ''year'') = Some y \<and> y < 2018)) \<longrightarrow>
      ?H = (\<lparr>code = 400, content = PlainText ''invalid year''\<rparr>, [])"
    using parse_year_reject [of "Get query ''year''"] handle_invalid_year [of query fmt getPage]
    by blast
  have b: "Get query ''page'' \<noteq> [] \<and>
      (Atoi (Get query ''page'') = None \<or> (\<exists>p. Atoi (Get query ''page'') = Some p \<and> p < 1)) \<longrightarrow>
      code (fst ?H) = 400 \<and> snd ?H = []"
    using parse_page_reject [of "Get query ''page''"]
    by (auto simp: handleDelegations_def split: sum.splits)
  have c: "\<forall>s n. Atoi s = Some n \<longrightarrow>
      s \<noteq> [] \<and> list_all is_digit (tl s) \<and> (is_digit (hd s) \<or> hd s = CHR ''-'' \<or> hd s = CHR ''+'')"
    using Atoi_numeric by blast
  have d: "snd ?H = [(year, 50, wrap64 ((page - 1) * 50))] \<and>
      (page \<le> 184467440737095517 \<longrightarrow> wrap64 ((page - 1) * 50) = (page - 1) * 50)"
    if y: "parse_year (Get query ''year'') = Inr year" and p: "parse_page (Get query ''page'') = Inr page"
    for year page
  proof -
    from parse_page_accept [OF p] have "1 \<le> page" by auto
    with handle_valid [OF y p, of fmt getPage] offset_exact [of page] show ?thesis
      by (simp add: pageSize_def)
  qed
  have e: "(code (fst ?H) = 400) = (snd ?H = [])"
    by (rule handle_code_calls)
  from a b c d e show ?thesis by blast
qed

theorem request_validation_witness:
  "handleDelegations epoch_seconds (GetPage healthy three_rows_db) (Map.empty(''year'' \<mapsto> [''2017''])) =
     (\<lparr>code = 400, content = PlainText ''invalid year''\<rparr>, []) \<and>
   snd (handleDelegations epoch_seconds (GetPage healthy three_rows_db) (Map.empty(''page'' \<mapsto> [''0'']))) = [] \<and>
   snd (handleDelegations epoch_seconds (GetPage healthy three_rows_db)
          (Map.empty(''year'' \<mapsto> [''2019''], ''page'' \<mapsto> [''2'']))) = [(Some 2019, 50, 50)]"
proof -
  let ?g = "GetPage healthy three_rows_db"
  have y: "Get (Map.empty(''year'' \<mapsto> [''2017''])) ''year'' \<noteq> [] \<and>
      (Atoi (Get (Map.empty(''year'' \<mapsto> [''2017''])) ''year'') = None \<or>
       (\<exists>y. Atoi (Get (Map.empty(''year'' \<mapsto> [''2017''])) ''year'') = Some y \<and> y < 2018))"
    by (simp add: Get_def Atoi_def parse_unsigned_def is_digit_def)
  have p: "Get (Map.empty(''page'' \<mapsto> [''0''])) ''page'' \<noteq> [] \<and>
      (Atoi (Get (Map.empty(''page'' \<mapsto> [''0''])) ''page'') = None \<or>
       (\<exists>p. Atoi (Get (Map.empty(''page'' \<mapsto> [''0''])) ''page'') = Some p \<and> p < 1))"
    by (simp add: Get_def Atoi_def parse_unsigned_def is_digit_def)
  have v: "parse_year (Get (Map.empty(''year'' \<mapsto> [''2019''], ''page'' \<mapsto> [''2''])) ''year'') = Inr (Some 2019) \<and>
      parse_page (Get (Map.empty(''year'' \<mapsto> [''2019''], ''page'' \<mapsto> [''2''])) ''page'') = Inr 2"
    by (simp add: Get_def parse_year_def parse_page_def Atoi_def parse_unsigned_def is_digit_def)
  from request_validation [of "Map.empty(''year'' \<mapsto> [''2017''])" epoch_seconds ?g] y
  have 1: "handleDelegations epoch_seconds ?g (Map.empty(''year'' \<mapsto> [''2017''])) =
     (\<lparr>code = 400, content = PlainText ''invalid year''\<rparr>, [])"
    by blast
  from request_validation [of "Map.empty(''page'' \<mapsto> [''0''])" epoch_seconds ?g] p
  have 2: "snd (handleDelegations epoch_seconds ?g (Map.empty(''page'' \<mapsto> [''0'']))) = []"
    by blast
  from request_validation [of "Map.empty(''year'' \<mapsto> [''2019''], ''page'' \<mapsto> [''2''])" epoch_seconds ?g] v
  have 3: "snd (handleDelegations epoch_seconds ?g (Map.empty(''year'' \<mapsto> [''2019''], ''page'' \<mapsto> [''2'']))) =
      [(Some 2019, 50, wrap64 ((2 - 1) * 50))]"
    by blast
  have w: "wrap64 ((2 - 1) * 50) = 50"
    by (simp add: wrap64_def)
  from 1 2 3 w show ?thesis by simp
qed

text \<open>
  Claim C9 as stated fails. A \<^verbatim>\<open>year\<close> parameter that is present with an empty value is
  not numeric, yet the request is answered with status 200 after a call to the store:
  the handler takes the empty value for an absent parameter. And for the page
  184467440737095518 the 64-bit product wraps, so the store is called with a negative
  offset instead of \<open>(page - 1) * 50\<close>.
\<close>

theorem empty_year_reaches_storage:
  "(Map.empty(''year'' \<mapsto> [[]])) ''year'' = Some [[]] \<and>
   Atoi [] = None \<and>
   code (fst (handleDelegations epoch_seconds (GetPage healthy three_rows_db) (Map.empty(''year'' \<mapsto> [[]])))) = 200 \<and>
   snd (handleDelegations epoch_seconds (GetPage healthy three_rows_db) (Map.empty(''year'' \<mapsto> [[]]))) =
     [(None, 50, 0)] \<and>
   Atoi ''184467440737095518'' = Some 184467440737095518 \<and>
   snd (handleDelegations epoch_seconds (GetPage healthy three_rows_db)
          (Map.empty(''page'' \<mapsto> [''184467440737095518'']))) = [(None, 50, - 9223372036854775766)]"
  by (simp add: handleDelegations_def Get_def parse_year_def parse_page_def Atoi_def parse_unsigned_def
      is_digit_def GetPage_def healthy_def wrap64_def pageSize_def Let_def)

text \<open>
  Claim C10. A request without a \<^verbatim>\<open>page\<close> parameter is handled exactly as the same
  request with \<^verbatim>\<open>page=1\<close>, and calls the store with limit 50 and offset 0. A request
  without a \<^verbatim>\<open>year\<close> parameter calls the store without a year, and the store's
  selection without a year keeps every row. A reply with status 200 carries a JSON
  object whose \<^verbatim>\<open>data\<close> is an array, never \<^verbatim>\<open>null\<close>; for an empty result it is the
  empty array.
\<close>

theorem defaults_and_data_array:
  "(query ''page'' = None \<longrightarrow>
      handleDelegations fmt getPage query = handleDelegations fmt getPage (query(''page'' \<mapsto> [''1'']))) \<and>
   (query ''page'' = None \<longrightarrow>
      (\<forall>c \<in> set (snd (handleDelegations fmt getPage query)). fst (snd c) = 50 \<and> snd (snd c) = 0)) \<and>
   (query ''year'' = None \<longrightarrow>
      (\<forall>c \<in> set (snd (handleDelegations fmt getPage query)). fst c = None)) \<and>
   (code (fst (handleDelegations fmt getPage query)) = 200 \<longrightarrow>
      (\<exists>xs. content (fst (handleDelegations fmt getPage query)) = JSON (JArray xs))) \<and>
   content (fst (handleDelegations fmt getPage query)) \<noteq> JSON JNull \<and>
   select_page db None limit offset = take (nat limit) (drop (nat offset) (order_by_desc (delegations db))) \<and>
   (\<forall>year l off. snd (handleDelegations fmt getPage query) = [(year, l, off)] \<and> getPage year l off = Inr [] \<longrightarrow>
      fst (handleDelegations fmt getPage query) = \<lparr>code = 200, content = JSON (JArray [])\<rparr>)"
proof -
  let ?H = "handleDelegations fmt getPage query"
  have one: "parse_page ''1'' = Inr 1"
    by (simp add: parse_page_def Atoi_def parse_unsigned_def is_digit_def)
  have zero: "parse_page [] = Inr 1"
    by (simp add: parse_page_def)
  have a: "?H = handleDelegations fmt getPage (query(''page'' \<mapsto> [''1'']))" if "query ''page'' = None"
  proof -
    have g1: "Get query ''page'' = []"
      using that by (simp add: Get_def)
    have g2: "Get (query(''page'' \<mapsto> [''1''])) ''page'' = ''1''"
      by (simp add: Get_def)
    have g3: "Get (query(''page'' \<mapsto> [''1''])) ''year'' = Get query ''year''"
      by (simp add: Get_def)
    show ?thesis
      unfolding handleDelegations_def g1 g2 g3 one zero ..
  qed
  have b: "\<forall>c \<in> set (snd ?H). fst (snd c) = 50 \<and> snd (snd c) = 0" if "query ''page'' = None"
    using that
    by (auto simp: handleDelegations_def Get_def parse_page_def wrap64_def pageSize_def Let_def
        split: sum.splits)
  have c: "\<forall>c \<in> set (snd ?H). fst c = None" if "query ''year'' = None"
    using that
    by (auto simp: handleDelegations_def Get_def parse_year_def Let_def split: sum.splits)
  have d: "code (fst ?H) = 200 \<longrightarrow> (\<exists>xs. content (fst ?H) = JSON (JArray xs))"
    by (auto simp: handleDelegations_def Let_def Encode_render split: sum.splits)
  have e: "content (fst ?H) \<noteq> JSON JNull"
    by (auto simp: handleDelegations_def Let_def Encode_render split: sum.splits)
  have f: "\<forall>year l off. snd ?H = [(year, l, off)] \<and> getPage year l off = Inr [] \<longrightarrow>
      fst ?H = \<lparr>code = 200, content = JSON (JArray [])\<rparr>"
    by (auto simp: handleDelegations_def Let_def Encode_def make_slice_def split: sum.splits)
  have g: "select_page db None limit offset = take (nat limit) (drop (nat offset) (order_by_desc (delegations db)))"
    by (simp add: select_page_def where_year_def)
  from a b c d e f g show ?thesis by blast
qed

theorem defaults_and_data_array_witness:
  "handleDelegations epoch_seconds (GetPage healthy empty_db) Map.empty =
     (\<lparr>code = 200, content = JSON (JArray [])\<rparr>, [(None, 50, 0)]) \<and>
   handleDelegations epoch_seconds (GetPage healthy empty_db) (Map.empty(''page'' \<mapsto> [''1''])) =
     (\<lparr>code = 200, content = JSON (JArray [])\<rparr>, [(None, 50, 0)])"
proof -
  have h: "handleDelegations epoch_seconds (GetPage healthy empty_db) Map.empty =
     (\<lparr>code = 200, content = JSON (JArray [])\<rparr>, [(None, 50, 0)])"
    by (simp add: handleDelegations_def Get_def parse_year_def parse_page_def GetPage_def
        select_page_def healthy_def empty_db_def wrap64_def pageSize_def Let_def Encode_def make_slice_def)
  have n: "(Map.empty :: Values) ''page'' = None"
    by simp
  from defaults_and_data_array [of Map.empty epoch_seconds "GetPage healthy empty_db" empty_db 50 0] n
  have "handleDelegations epoch_seconds (GetPage healthy empty_db) Map.empty =
      handleDelegations epoch_seconds (GetPage healthy empty_db) (Map.empty(''page'' \<mapsto> [''1'']))"
    by blast
  with h show ?thesis by simp
qed

end
